theory Spec2Isabelle
  imports Complex_Main "HOL-Library.Word"
begin

section \<open>JavaScript values\<close>

text \<open>
  A JavaScript string is a sequence of UTF-16 code units; \<open>length\<close> counts code units, as
  \<^verbatim>\<open>String.prototype.length\<close> does.  \<open>js\<close> writes an ASCII literal as such a sequence.
\<close>

type_synonym jsstring = "16 word list"

definition js :: "string \<Rightarrow> jsstring" where
  "js s = map (\<lambda>c. of_nat (of_char c)) s"

text \<open>
  A number that \<^verbatim>\<open>JSON.parse\<close> can return: a finite double, here a rational (every finite
  double is one), or one of the two infinities, which it returns for a literal beyond the
  range of doubles such as \<^verbatim>\<open>1e999\<close>.  It never returns NaN.
\<close>

datatype jsnumber = Finite rat | PosInfinity | NegInfinity

text \<open>
  The values \<^verbatim>\<open>JSON.parse\<close> can return.  An object is its list of properties, and a
  property that is not listed reads as \<^verbatim>\<open>undefined\<close>, which is \<open>None\<close> below.
\<close>

datatype json =
    JNull
  | JBool bool
  | JNumber jsnumber
  | JString jsstring
  | JArray "json list"
  | JObject "(jsstring \<times> json) list"

datatype js_error = SyntaxError | TypeError

text \<open>\<^verbatim>\<open>obj.k\<close> for the property names the program reads (none is inherited or an index).\<close>

fun field :: "json \<Rightarrow> jsstring \<Rightarrow> json option" where
  "field (JObject kvs) k = map_of kvs k"
| "field _ k = None"

text \<open>Truthiness, as \<^verbatim>\<open>||\<close>, \<^verbatim>\<open>!\<close> and \<^verbatim>\<open>?:\<close> test it.\<close>

fun truthy :: "json option \<Rightarrow> bool" where
  "truthy None = False"
| "truthy (Some JNull) = False"
| "truthy (Some (JBool b)) = b"
| "truthy (Some (JNumber n)) = (n \<noteq> Finite 0)"
| "truthy (Some (JString s)) = (s \<noteq> [])"
| "truthy (Some (JArray xs)) = True"
| "truthy (Some (JObject kvs)) = True"

text \<open>\<^verbatim>\<open>a || d\<close> where \<open>d\<close> is never \<^verbatim>\<open>undefined\<close>.\<close>

definition or_else :: "json option \<Rightarrow> json \<Rightarrow> json" where
  "or_else a d = (if truthy a then the a else d)"

text \<open>
  What the program takes from the JavaScript runtime: \<^verbatim>\<open>JSON.parse\<close> (\<open>None\<close> when it
  throws a SyntaxError), \<^verbatim>\<open>JSON.stringify\<close> and \<^verbatim>\<open>String.prototype.toLowerCase\<close>.
  Every theorem below holds for whatever these three functions are.
\<close>

record platform =
  JSON_parse :: "jsstring \<Rightarrow> json option"
  JSON_stringify :: "json \<Rightarrow> jsstring"
  toLowerCase :: "jsstring \<Rightarrow> jsstring"

section \<open>String utilities\<close>

text \<open>
  The code units that \<^verbatim>\<open>trim\<close> removes and \<^verbatim>\<open>\s\<close> matches: ECMAScript's WhiteSpace and
  LineTerminator.
\<close>

definition isWhiteSpace :: "16 word \<Rightarrow> bool" where
  "isWhiteSpace c \<longleftrightarrow>
     c \<in> {0x9, 0xA, 0xB, 0xC, 0xD, 0x20, 0xA0, 0x1680, 0x2028, 0x2029, 0x202F, 0x205F,
          0x3000, 0xFEFF}
     \<or> (0x2000 \<le> c \<and> c \<le> 0x200A)"

definition trim :: "jsstring \<Rightarrow> jsstring" where
  "trim s = rev (dropWhile isWhiteSpace (rev (dropWhile isWhiteSpace s)))"

text \<open>\<^verbatim>\<open>s.split(sep)\<close> for a separator of one code unit; the empty string gives one empty piece.\<close>

fun split_on :: "16 word \<Rightarrow> jsstring \<Rightarrow> jsstring list" where
  "split_on sep [] = [[]]"
| "split_on sep (c # cs) =
     (if c = sep then [] # split_on sep cs
      else (case split_on sep cs of
              l # ls \<Rightarrow> (c # l) # ls
            | [] \<Rightarrow> [[c]]))"

text \<open>\<^verbatim>\<open>s.replace(/\s+/g, ' ')\<close>: every maximal run of white space becomes one space.\<close>

function replace_ws_runs :: "jsstring \<Rightarrow> jsstring" where
  "replace_ws_runs [] = []"
| "replace_ws_runs (c # cs) =
     (if isWhiteSpace c then 0x20 # replace_ws_runs (dropWhile isWhiteSpace cs)
      else c # replace_ws_runs cs)"
  by pat_completeness auto
termination
  by (relation "measure length") (auto simp: length_dropWhile_le less_Suc_eq_le)

text \<open>\<^verbatim>\<open>input.trim().toLowerCase().replace(/\s+/g, ' ')\<close>\<close>

definition normalizeAnswer :: "platform \<Rightarrow> jsstring \<Rightarrow> jsstring" where
  "normalizeAnswer P input = replace_ws_runs (toLowerCase P (trim input))"

definition isDigit :: "16 word \<Rightarrow> bool" where
  "isDigit c \<longleftrightarrow> 0x30 \<le> c \<and> c \<le> 0x39"

text \<open>
  \<^verbatim>\<open>s.replace(/_\d+$/, '')\<close>: when the string ends with an underscore followed by one or
  more ASCII digits, that ending is removed; otherwise the string is returned as it is.
\<close>

definition replace_id_suffix :: "jsstring \<Rightarrow> jsstring" where
  "replace_id_suffix s =
     (let r = rev s; ds = takeWhile isDigit r in
      (case dropWhile isDigit r of
         u # pre \<Rightarrow> if u = 0x5F \<and> ds \<noteq> [] then rev pre else s
       | [] \<Rightarrow> s))"

text \<open>
  \<^verbatim>\<open>cleanText\<close>.  Its parameter is typed \<^verbatim>\<open>string\<close>, but it is called on whatever the
  record holds: a falsy value gives the empty string, a string has its suffix removed, and
  any other value has no \<^verbatim>\<open>replace\<close> method, so the call throws a TypeError.
\<close>

definition cleanText :: "json \<Rightarrow> js_error + jsstring" where
  "cleanText text =
     (if \<not> truthy (Some text) then Inr []
      else (case text of
              JString s \<Rightarrow> Inr (replace_id_suffix s)
            | _ \<Rightarrow> Inl TypeError))"

section \<open>Cards and their ingestion\<close>

record Card =
  id_field :: jsnumber
  lemma_field :: jsstring
  gender :: json
  full_form :: jsstring
  translations_ko :: "json list"
  prompt_ko :: json
  accepted_answers_de :: "jsstring list"
  level :: json
  topic :: json
  language :: json

text \<open>\<^verbatim>\<open>validateCard\<close>: \<^verbatim>\<open>typeof obj === 'object'\<close> holds of arrays too.\<close>

definition validateCard :: "json \<Rightarrow> bool" where
  "validateCard obj \<longleftrightarrow>
     (case obj of JObject kvs \<Rightarrow> True | JArray xs \<Rightarrow> True | _ \<Rightarrow> False)
     \<and> (case field obj (js ''lemma'') of Some (JString s) \<Rightarrow> True | _ \<Rightarrow> False)
     \<and> (case field obj (js ''translations_ko'') of Some (JArray xs) \<Rightarrow> True | _ \<Rightarrow> False)"

text \<open>\<^verbatim>\<open>xs.map(f)\<close> where \<open>f\<close> may throw: the first exception ends the map.\<close>

fun map_throwing :: "('a \<Rightarrow> js_error + 'b) \<Rightarrow> 'a list \<Rightarrow> js_error + 'b list" where
  "map_throwing f [] = Inr []"
| "map_throwing f (x # xs) =
     (case f x of
        Inl e \<Rightarrow> Inl e
      | Inr y \<Rightarrow> (case map_throwing f xs of Inl e \<Rightarrow> Inl e | Inr ys \<Rightarrow> Inr (y # ys)))"

text \<open>\<^verbatim>\<open>obj.translations_ko[0]\<close>\<close>

definition first_translation :: "json \<Rightarrow> json option" where
  "first_translation obj =
     (case field obj (js ''translations_ko'') of
        Some (JArray (t # ts)) \<Rightarrow> Some t
      | _ \<Rightarrow> None)"

text \<open>
  Lines 75 to 93 of \<^verbatim>\<open>parseJSONL\<close>: the card built from a record that passed
  \<^verbatim>\<open>validateCard\<close>, or the exception thrown on the way.  \<open>clock index\<close> is what
  \<^verbatim>\<open>Date.now()\<close> returns while line \<open>index\<close> is processed.
\<close>

definition makeCard :: "platform \<Rightarrow> (nat \<Rightarrow> int) \<Rightarrow> nat \<Rightarrow> json \<Rightarrow> js_error + Card" where
  "makeCard P clock index obj =
     (case cleanText (the (field obj (js ''lemma''))) of
        Inl e \<Rightarrow> Inl e
      | Inr displayLemma \<Rightarrow>
     (case (if truthy (field obj (js ''full_form''))
            then cleanText (the (field obj (js ''full_form'')))
            else Inr displayLemma) of
        Inl e \<Rightarrow> Inl e
      | Inr displayFullForm \<Rightarrow>
     (case (case field obj (js ''accepted_answers_de'') of
              Some (JArray answers) \<Rightarrow>
                map_throwing (\<lambda>ans. map_sum (\<lambda>e. e) (toLowerCase P) (cleanText ans)) answers
            | _ \<Rightarrow> Inr [toLowerCase P displayLemma]) of
        Inl e \<Rightarrow> Inl e
      | Inr accepted \<Rightarrow>
          Inr \<lparr> id_field = (case field obj (js ''id'') of
                              Some (JNumber n) \<Rightarrow> n
                            | _ \<Rightarrow> Finite (of_int (clock index) + of_nat index)),
                lemma_field = displayLemma,
                gender = or_else (field obj (js ''gender'')) JNull,
                full_form = displayFullForm,
                translations_ko = (case field obj (js ''translations_ko'') of
                                     Some (JArray ts) \<Rightarrow> ts | _ \<Rightarrow> []),
                prompt_ko = or_else (field obj (js ''prompt_ko''))
                              (or_else (first_translation obj) (JString (js ''???''))),
                accepted_answers_de = accepted,
                level = or_else (field obj (js ''level'')) (JString (js ''Unknown'')),
                topic = or_else (field obj (js ''topic'')) (JString (js ''General'')),
                language = or_else (field obj (js ''language'')) (JString (js ''German'')) \<rparr>)))"

text \<open>The deduplication signature of lines 96 to 103: the object, and its JSON text.\<close>

definition signature_object :: "Card \<Rightarrow> json" where
  "signature_object c =
     JObject
       [(js ''lang'', language c),
        (js ''lemma'', JString (lemma_field c)),
        (js ''gender'', gender c),
        (js ''trans'', JArray (translations_ko c)),
        (js ''level'', level c),
        (js ''topic'', topic c)]"

definition signature :: "platform \<Rightarrow> Card \<Rightarrow> jsstring" where
  "signature P c = JSON_stringify P (signature_object c)"

text \<open>
  The body of \<^verbatim>\<open>lines.forEach\<close>, on the state (\<open>cards\<close>, \<open>seen\<close>, \<open>invalidCount\<close>).
  Whatever is thrown inside \<^verbatim>\<open>try\<close> is caught and counts the line as invalid.
\<close>

type_synonym ingest_state = "Card list \<times> jsstring set \<times> nat"

definition processLine ::
  "platform \<Rightarrow> (nat \<Rightarrow> int) \<Rightarrow> ingest_state \<Rightarrow> nat \<times> jsstring \<Rightarrow> ingest_state" where
  "processLine P clock st il =
     (case st of (cs, seen, invalidCount) \<Rightarrow>
      case il of (index, line) \<Rightarrow>
        if trim line = [] then st
        else (case JSON_parse P line of
                None \<Rightarrow> (cs, seen, invalidCount + 1)
              | Some obj \<Rightarrow>
                  if validateCard obj then
                    (case makeCard P clock index obj of
                       Inl e \<Rightarrow> (cs, seen, invalidCount + 1)
                     | Inr c \<Rightarrow>
                         if signature P c \<in> seen then st
                         else (cs @ [c], insert (signature P c) seen, invalidCount))
                  else (cs, seen, invalidCount + 1)))"

definition ingest_loop :: "platform \<Rightarrow> (nat \<Rightarrow> int) \<Rightarrow> jsstring list \<Rightarrow> ingest_state" where
  "ingest_loop P clock lines = foldl (processLine P clock) ([], {}, 0) (enumerate 0 lines)"

text \<open>The two messages, as UTF-16 code units, and the decimal rendering of the count.\<close>

definition msg_no_valid_cards :: jsstring where
  "msg_no_valid_cards =
     [0xC720, 0xD6A8, 0xD55C, 0x20, 0xCE74, 0xB4DC, 0x20, 0xB370, 0xC774, 0xD130, 0xAC00,
      0x20, 0xC5C6, 0xC2B5, 0xB2C8, 0xB2E4, 0x2E]"

fun decimal :: "nat \<Rightarrow> jsstring" where
  "decimal n = (if n < 10 then [0x30 + of_nat n] else decimal (n div 10) @ [0x30 + of_nat (n mod 10)])"

definition msg_many_invalid :: "nat \<Rightarrow> jsstring" where
  "msg_many_invalid n =
     [0xD30C, 0xC77C, 0xC758, 0x20, 0xC0C1, 0xB2F9, 0xC218, 0x28] @ decimal n @
     [0xC904, 0x29, 0xAC00, 0x20, 0xC62C, 0xBC14, 0xB974, 0xC9C0, 0x20, 0xC54A, 0xC740, 0x20,
      0xD615, 0xC2DD, 0xC785, 0xB2C8, 0xB2E4, 0x2E]"

record parse_result =
  cards :: "Card list"
  error :: "jsstring option"

definition text_lines :: "jsstring \<Rightarrow> jsstring list" where
  "text_lines text = split_on 0xA (trim text)"

definition parseJSONL :: "platform \<Rightarrow> (nat \<Rightarrow> int) \<Rightarrow> jsstring \<Rightarrow> parse_result" where
  "parseJSONL P clock text =
     (let lines = text_lines text in
      case ingest_loop P clock lines of (cs, seen, invalidCount) \<Rightarrow>
        if length cs = 0 then \<lparr> cards = [], error = Some msg_no_valid_cards \<rparr>
        else if invalidCount > 0 \<and> (of_nat (length cs) :: rat) < of_nat (length lines) * 0.5
        then \<lparr> cards = cs, error = Some (msg_many_invalid invalidCount) \<rparr>
        else \<lparr> cards = cs, error = None \<rparr>)"

section \<open>The ingestion loop, line by line\<close>

text \<open>
  What becomes of one line, whatever the loop has seen before: it is skipped as blank, it is
  counted as invalid (the decoder threw, \<^verbatim>\<open>validateCard\<close> refused the record, or building
  the card threw), or it gives a card, which is then kept or dropped as a duplicate.
\<close>

datatype line_outcome = Blank | Invalid | Decoded Card

definition classify :: "platform \<Rightarrow> (nat \<Rightarrow> int) \<Rightarrow> nat \<times> jsstring \<Rightarrow> line_outcome" where
  "classify P clock il =
     (case il of (index, line) \<Rightarrow>
        if trim line = [] then Blank
        else (case JSON_parse P line of
                None \<Rightarrow> Invalid
              | Some obj \<Rightarrow>
                  if validateCard obj then
                    (case makeCard P clock index obj of
                       Inl e \<Rightarrow> Invalid
                     | Inr c \<Rightarrow> Decoded c)
                  else Invalid))"

text \<open>The cards of the lines that give one, each with its line index, in line order.\<close>

definition indexed_records ::
  "platform \<Rightarrow> (nat \<Rightarrow> int) \<Rightarrow> (nat \<times> jsstring) list \<Rightarrow> (nat \<times> Card) list" where
  "indexed_records P clock ils =
     List.map_filter
       (\<lambda>il. case classify P clock il of Decoded c \<Rightarrow> Some (fst il, c) | _ \<Rightarrow> None) ils"

definition invalid_lines ::
  "platform \<Rightarrow> (nat \<Rightarrow> int) \<Rightarrow> (nat \<times> jsstring) list \<Rightarrow> (nat \<times> jsstring) list" where
  "invalid_lines P clock ils = filter (\<lambda>il. classify P clock il = Invalid) ils"

text \<open>A card without its identifier.\<close>

definition erase_id :: "Card \<Rightarrow> Card" where
  "erase_id c = c\<lparr> id_field := Finite 0 \<rparr>"

text \<open>
  The lines for which \<^verbatim>\<open>Date.now()\<close> can be read: those that are not blank and decode to a
  record that passes \<^verbatim>\<open>validateCard\<close> and has no number as \<^verbatim>\<open>id\<close>.
\<close>

definition reads_clock :: "platform \<Rightarrow> jsstring \<Rightarrow> bool" where
  "reads_clock P line \<longleftrightarrow>
     trim line \<noteq> [] \<and>
     (case JSON_parse P line of
        None \<Rightarrow> False
      | Some obj \<Rightarrow>
          validateCard obj \<and>
          (case field obj (js ''id'') of Some (JNumber n) \<Rightarrow> False | _ \<Rightarrow> True))"

text \<open>The records whose signature is not in \<open>seen\<close> and not the signature of an earlier record.\<close>

fun keep_new :: "platform \<Rightarrow> jsstring set \<Rightarrow> (nat \<times> Card) list \<Rightarrow> (nat \<times> Card) list" where
  "keep_new P seen [] = []"
| "keep_new P seen (ic # ics) =
     (if signature P (snd ic) \<in> seen then keep_new P seen ics
      else ic # keep_new P (insert (signature P (snd ic)) seen) ics)"

text \<open>What the loop keeps: a record survives exactly when no earlier record has its signature.\<close>

definition first_by_signature :: "platform \<Rightarrow> (nat \<times> Card) list \<Rightarrow> (nat \<times> Card) list" where
  "first_by_signature P recs =
     filter (\<lambda>ic. \<forall>jd \<in> set recs. fst jd < fst ic \<longrightarrow> signature P (snd jd) \<noteq> signature P (snd ic)) recs"

text \<open>The fields that the signature is made of.\<close>

definition dedup_tuple :: "Card \<Rightarrow> json \<times> jsstring \<times> json \<times> json list \<times> json \<times> json" where
  "dedup_tuple c = (language c, lemma_field c, gender c, translations_ko c, level c, topic c)"

text \<open>
  The deduplication rule in the specification's words: a record survives exactly when no
  record of an earlier line agrees with it on the tuple.
\<close>

definition first_by_tuple :: "(nat \<times> Card) list \<Rightarrow> (nat \<times> Card) list" where
  "first_by_tuple recs =
     filter (\<lambda>ic. \<forall>jd \<in> set recs. fst jd < fst ic \<longrightarrow> dedup_tuple (snd jd) \<noteq> dedup_tuple (snd ic)) recs"

section \<open>A sample runtime and sample lines\<close>

text \<open>
  The theorems are about every runtime.  Their examples run on this one, which does what the
  browser does on the texts the examples give it: \<open>sample_toLowerCase\<close> lowers the letters A
  to Z (the examples hold no other cased letter), \<open>sample_stringify\<close> writes compact JSON
  (the examples hold natural numbers and infinities, which are written \<^verbatim>\<open>null\<close>, and strings
  in which only the quote and the backslash need an escape), and \<open>sample_JSON_parse\<close> holds the value of each sample line; the only
  other texts it is given are \<^verbatim>\<open>not json\<close> and \<^verbatim>\<open>{\<close>, which \<^verbatim>\<open>JSON.parse\<close> rejects.
\<close>

definition quote :: "jsstring \<Rightarrow> jsstring" where
  "quote s = 0x22 # concat (map (\<lambda>c. if c = 0x22 \<or> c = 0x5C then [0x5C, c] else [c]) s) @ [0x22]"

fun commas :: "jsstring list \<Rightarrow> jsstring" where
  "commas [] = []"
| "commas [x] = x"
| "commas (x # y # ys) = x @ 0x2C # commas (y # ys)"

fun sample_stringify :: "json \<Rightarrow> jsstring" where
  "sample_stringify JNull = js ''null''"
| "sample_stringify (JBool b) = (if b then js ''true'' else js ''false'')"
| "sample_stringify (JNumber n) =
     (case n of
        Finite q \<Rightarrow> (if q < 0 then 0x2D # decimal (nat \<lfloor>- q\<rfloor>) else decimal (nat \<lfloor>q\<rfloor>))
      | _ \<Rightarrow> js ''null'')"
| "sample_stringify (JString s) = quote s"
| "sample_stringify (JArray xs) = 0x5B # commas (map sample_stringify xs) @ [0x5D]"
| "sample_stringify (JObject kvs) =
     0x7B # commas (map (\<lambda>kv. quote (fst kv) @ 0x3A # sample_stringify (snd kv)) kvs) @ [0x7D]"

definition sample_toLowerCase :: "jsstring \<Rightarrow> jsstring" where
  "sample_toLowerCase s = map (\<lambda>c. if 0x41 \<le> c \<and> c \<le> 0x5A then c + 0x20 else c) s"

text \<open>The line of the end-to-end example; its translation is the two code units C0AC ACFC.\<close>

definition line_apfel :: jsstring where
  \<open>line_apfel = js ''{"lemma":"Apfel","gender":"m","translations_ko":["'' @ [0xC0AC, 0xACFC] @
     js ''"],"level":"A1","topic":"Food"}''\<close>

definition obj_apfel :: json where
  "obj_apfel = JObject
     [(js ''lemma'', JString (js ''Apfel'')),
      (js ''gender'', JString (js ''m'')),
      (js ''translations_ko'', JArray [JString [0xC0AC, 0xACFC]]),
      (js ''level'', JString (js ''A1'')),
      (js ''topic'', JString (js ''Food''))]"

definition line_hund :: jsstring where
  \<open>line_hund = js ''{"lemma":"Hund","translations_ko":["dog"]}''\<close>

definition obj_hund :: json where
  "obj_hund = JObject
     [(js ''lemma'', JString (js ''Hund'')),
      (js ''translations_ko'', JArray [JString (js ''dog'')])]"

text \<open>The same word with an identifier.\<close>

definition line_hund_id :: jsstring where
  \<open>line_hund_id = js ''{"id":7,"lemma":"Hund","translations_ko":["dog"]}''\<close>

definition obj_hund_id :: json where
  "obj_hund_id = JObject
     [(js ''id'', JNumber (Finite 7)),
      (js ''lemma'', JString (js ''Hund'')),
      (js ''translations_ko'', JArray [JString (js ''dog'')])]"

text \<open>The same word with a full form of its own.\<close>

definition line_hund_article :: jsstring where
  \<open>line_hund_article = js ''{"lemma":"Hund","full_form":"der Hund","translations_ko":["dog"]}''\<close>

definition obj_hund_article :: json where
  "obj_hund_article = JObject
     [(js ''lemma'', JString (js ''Hund'')),
      (js ''full_form'', JString (js ''der Hund'')),
      (js ''translations_ko'', JArray [JString (js ''dog'')])]"

text \<open>The same word with a gender beyond the range of doubles.\<close>

definition line_hund_inf :: jsstring where
  \<open>line_hund_inf = js ''{"lemma":"Hund","gender":1e999,"translations_ko":["dog"]}''\<close>

definition obj_hund_inf :: json where
  "obj_hund_inf = JObject
     [(js ''lemma'', JString (js ''Hund'')),
      (js ''gender'', JNumber PosInfinity),
      (js ''translations_ko'', JArray [JString (js ''dog'')])]"

text \<open>A record whose accepted answer has a space on each side.\<close>

definition line_hund_spaced :: jsstring where
  \<open>line_hund_spaced =
     js ''{"lemma":"Hund","translations_ko":["dog"],"accepted_answers_de":[" Hund "]}''\<close>

definition obj_hund_spaced :: json where
  "obj_hund_spaced = JObject
     [(js ''lemma'', JString (js ''Hund'')),
      (js ''translations_ko'', JArray [JString (js ''dog'')]),
      (js ''accepted_answers_de'', JArray [JString (js '' Hund '')])]"

text \<open>A record whose lemma has two spaces between its words.\<close>

definition line_guten_tag :: jsstring where
  \<open>line_guten_tag = js ''{"lemma":"guten  Tag","translations_ko":["good day"]}''\<close>

definition obj_guten_tag :: json where
  "obj_guten_tag = JObject
     [(js ''lemma'', JString (js ''guten  Tag'')),
      (js ''translations_ko'', JArray [JString (js ''good day'')])]"

text \<open>The properties of the first record, and the same with an empty level.\<close>

definition props_hund :: "(jsstring \<times> json) list" where
  "props_hund =
     [(js ''lemma'', JString (js ''Hund'')),
      (js ''translations_ko'', JArray [JString (js ''dog'')])]"

definition props_hund_empty_level :: "(jsstring \<times> json) list" where
  "props_hund_empty_level =
     [(js ''lemma'', JString (js ''Hund'')),
      (js ''translations_ko'', JArray [JString (js ''dog'')]),
      (js ''level'', JString [])]"

definition sample_JSON_parse :: "jsstring \<Rightarrow> json option" where
  "sample_JSON_parse line =
     (if line = line_apfel then Some obj_apfel
      else if line = line_hund then Some obj_hund
      else if line = line_hund_id then Some obj_hund_id
      else if line = line_hund_article then Some obj_hund_article
      else if line = line_hund_inf then Some obj_hund_inf
      else if line = line_hund_spaced then Some obj_hund_spaced
      else if line = line_guten_tag then Some obj_guten_tag
      else None)"

definition sample_platform :: platform where
  "sample_platform =
     \<lparr> JSON_parse = sample_JSON_parse, JSON_stringify = sample_stringify,
       toLowerCase = sample_toLowerCase \<rparr>"

definition card_hund :: "rat \<Rightarrow> Card" where
  "card_hund n =
     \<lparr> id_field = Finite n, lemma_field = js ''Hund'', gender = JNull, full_form = js ''Hund'',
       translations_ko = [JString (js ''dog'')], prompt_ko = JString (js ''dog''),
       accepted_answers_de = [js ''hund''], level = JString (js ''Unknown''),
       topic = JString (js ''General''), language = JString (js ''German'') \<rparr>"

text \<open>One undecodable line, two blank lines and one good line.\<close>

definition text_sparse :: jsstring where
  "text_sparse = js ''not json'' @ [0xA, 0xA, 0xA] @ line_hund"

text \<open>Two undecodable lines and one good line.\<close>

definition text_mostly_bad :: jsstring where
  "text_mostly_bad = js ''not json'' @ [0xA] @ js ''{'' @ [0xA] @ line_hund"

text \<open>Three lines of white space only.\<close>

definition text_blank :: jsstring where
  "text_blank = [0x20, 0xA, 0x9, 0xA, 0x20, 0x20]"

section \<open>The card repository\<close>

record LoadedFile =
  file_id :: jsstring
  name :: jsstring
  file_cards :: "Card list"
  timestamp :: rat

text \<open>\<^verbatim>\<open>handleAddFile\<close>, and the \<^verbatim>\<open>allCards\<close> that \<^verbatim>\<open>flatMap\<close> derives from the files.\<close>

definition handleAddFile :: "LoadedFile list \<Rightarrow> LoadedFile \<Rightarrow> LoadedFile list" where
  "handleAddFile prev newFile = prev @ [newFile]"

definition allCards :: "LoadedFile list \<Rightarrow> Card list" where
  "allCards loadedFiles = concat (map file_cards loadedFiles)"

section \<open>The persistent stores\<close>

text \<open>\<^verbatim>\<open>localStorage\<close>: \<^verbatim>\<open>getItem\<close> of a key that is not set returns \<^verbatim>\<open>null\<close>, here \<open>None\<close>.\<close>

type_synonym storage = "jsstring \<rightharpoonup> jsstring"

definition STORAGE_KEY_WRONG_CARDS :: jsstring where
  "STORAGE_KEY_WRONG_CARDS = js ''vokabel_wrong_cards_v2''"

definition STORAGE_KEY_MEMOS :: jsstring where
  "STORAGE_KEY_MEMOS = js ''vokabel_memos_v1''"

text \<open>
  \<^verbatim>\<open>handleMemoChange\<close>, on the component's \<^verbatim>\<open>memos\<close> and the store.  \<open>stringify_memos\<close>
  is \<^verbatim>\<open>JSON.stringify\<close> on a \<^verbatim>\<open>Record<number, string>\<close>.
\<close>

type_synonym memos = "jsnumber \<rightharpoonup> jsstring"

definition handleMemoChange ::
  "(memos \<Rightarrow> jsstring) \<Rightarrow> memos \<times> storage \<Rightarrow> jsnumber \<Rightarrow> jsstring \<Rightarrow> memos \<times> storage" where
  "handleMemoChange stringify_memos st cardId text =
     (case st of (memos, localStorage) \<Rightarrow>
        if length text > 30 then st
        else (let newMemos = memos(cardId \<mapsto> text) in
              (newMemos, localStorage(STORAGE_KEY_MEMOS \<mapsto> stringify_memos newMemos))))"

text \<open>A card as the JSON value that \<^verbatim>\<open>JSON.stringify\<close> is given.\<close>

definition card_json :: "Card \<Rightarrow> json" where
  "card_json c = JObject
     [(js ''id'', JNumber (id_field c)),
      (js ''lemma'', JString (lemma_field c)),
      (js ''gender'', gender c),
      (js ''full_form'', JString (full_form c)),
      (js ''translations_ko'', JArray (translations_ko c)),
      (js ''prompt_ko'', prompt_ko c),
      (js ''accepted_answers_de'', JArray (map JString (accepted_answers_de c))),
      (js ''level'', level c),
      (js ''topic'', topic c),
      (js ''language'', language c)]"

text \<open>
  \<^verbatim>\<open>list.find(c => c.id === card.id)\<close>, as found or not: reading \<^verbatim>\<open>id\<close> of \<^verbatim>\<open>null\<close>
  throws, and the search ends at the first match.
\<close>

fun find_id :: "json list \<Rightarrow> jsnumber \<Rightarrow> js_error + bool" where
  "find_id [] n = Inr False"
| "find_id (x # xs) n =
     (if x = JNull then Inl TypeError
      else if field x (js ''id'') = Some (JNumber n) then Inr True
      else find_id xs n)"

text \<open>
  \<^verbatim>\<open>saveWrongCard\<close>.  \<^verbatim>\<open>JSON.parse(stored)\<close> stands outside any \<^verbatim>\<open>try\<close>, and a decoded
  value that is not an array has no \<^verbatim>\<open>find\<close>.
\<close>

definition saveWrongCard :: "platform \<Rightarrow> storage \<Rightarrow> Card \<Rightarrow> js_error + storage" where
  "saveWrongCard P localStorage c =
     (case (case localStorage STORAGE_KEY_WRONG_CARDS of
              None \<Rightarrow> Inr (JArray [])
            | Some stored \<Rightarrow>
                if stored = [] then Inr (JArray [])
                else (case JSON_parse P stored of
                        None \<Rightarrow> Inl SyntaxError
                      | Some v \<Rightarrow> Inr v)) of
        Inl e \<Rightarrow> Inl e
      | Inr (JArray list) \<Rightarrow>
          (case find_id list (id_field c) of
             Inl e \<Rightarrow> Inl e
           | Inr found \<Rightarrow>
               if found then Inr localStorage
               else Inr (localStorage(STORAGE_KEY_WRONG_CARDS \<mapsto>
                           JSON_stringify P (JArray (list @ [card_json c])))))
      | Inr _ \<Rightarrow> Inl TypeError)"

text \<open>
  The effect of \<^verbatim>\<open>App\<close> that loads the saved wrong cards: the state starts as the empty
  array, and \<^verbatim>\<open>JSON.parse\<close> stands inside \<^verbatim>\<open>try\<close>, its exception logged.
\<close>

definition loadSavedWrongCards :: "platform \<Rightarrow> storage \<Rightarrow> json" where
  "loadSavedWrongCards P localStorage =
     (case localStorage STORAGE_KEY_WRONG_CARDS of
        None \<Rightarrow> JArray []
      | Some saved \<Rightarrow>
          if saved = [] then JArray []
          else (case JSON_parse P saved of
                  None \<Rightarrow> JArray []
                | Some v \<Rightarrow> v))"

section \<open>The quiz view\<close>

datatype feedback_state = Idle | Correct | Incorrect

record quiz_state =
  quiz_cards :: "Card list"
  currentIndex :: nat
  input :: jsstring
  feedback :: feedback_state
  stats_total :: nat
  stats_correct :: nat
  isFinished :: bool
  sessionWrongCards :: "Card list"

text \<open>The state that \<^verbatim>\<open>QuizView\<close> starts from, and resets to when its cards change.\<close>

definition init_quiz :: "Card list \<Rightarrow> quiz_state" where
  "init_quiz cs =
     \<lparr> quiz_cards = cs, currentIndex = 0, input = [], feedback = Idle, stats_total = 0,
       stats_correct = 0, isFinished = False, sessionWrongCards = [] \<rparr>"

definition handleNext :: "quiz_state \<Rightarrow> quiz_state" where
  "handleNext st =
     (let st1 = st\<lparr> feedback := Idle, input := [] \<rparr> in
      if currentIndex st + 1 \<ge> length (quiz_cards st) then st1\<lparr> isFinished := True \<rparr>
      else st1\<lparr> currentIndex := currentIndex st + 1 \<rparr>)"

text \<open>
  \<^verbatim>\<open>handleSubmit\<close>, on the store and the component's state.  The first component is the
  exception that leaves the handler, if any: reading a card beyond the list throws before
  any state is set, and \<^verbatim>\<open>saveWrongCard\<close> throws after the statistics and the feedback
  were set and before the card joins the session's wrong cards.
\<close>

definition handleSubmit ::
  "platform \<Rightarrow> storage \<times> quiz_state \<Rightarrow> js_error option \<times> storage \<times> quiz_state" where
  "handleSubmit P sst =
     (case sst of (localStorage, st) \<Rightarrow>
        if isFinished st then (None, localStorage, st)
        else if feedback st \<noteq> Idle then (None, localStorage, handleNext st)
        else if trim (input st) = [] then (None, localStorage, st)
        else if currentIndex st \<ge> length (quiz_cards st) then (Some TypeError, localStorage, st)
        else
          (let currentCard = quiz_cards st ! currentIndex st;
               normalizedInput = normalizeAnswer P (input st);
               isCorrect = (normalizedInput \<in> set (accepted_answers_de currentCard));
               st1 = st\<lparr> stats_total := stats_total st + 1,
                         stats_correct := (if isCorrect then stats_correct st + 1
                                           else stats_correct st),
                         feedback := (if isCorrect then Correct else Incorrect) \<rparr>
           in if isCorrect then (None, localStorage, st1)
              else (case saveWrongCard P localStorage currentCard of
                      Inl e \<Rightarrow> (Some e, localStorage, st1)
                    | Inr localStorage' \<Rightarrow>
                        (None, localStorage',
                         st1\<lparr> sessionWrongCards := sessionWrongCards st @ [currentCard] \<rparr>))))"

text \<open>
  What the user can do in the quiz view: submit the form, type into the input, which is
  read-only while feedback is shown, and press the button for the next question, which is
  there only while feedback is shown.
\<close>

datatype quiz_event = Submit | Type jsstring | ClickNext

definition quiz_step ::
  "platform \<Rightarrow> storage \<times> quiz_state \<Rightarrow> quiz_event \<Rightarrow> storage \<times> quiz_state" where
  "quiz_step P sst ev =
     (case ev of
        Submit \<Rightarrow> snd (handleSubmit P sst)
      | Type s \<Rightarrow>
          if \<not> isFinished (snd sst) \<and> feedback (snd sst) = Idle
          then (fst sst, (snd sst)\<lparr> input := s \<rparr>) else sst
      | ClickNext \<Rightarrow>
          if \<not> isFinished (snd sst) \<and> feedback (snd sst) \<noteq> Idle
          then (fst sst, handleNext (snd sst)) else sst)"

text \<open>
  What holds of the quiz view's state after any sequence of events: the number of scored
  answers is the number of questions left behind, plus one while feedback for the current
  question is shown or the session is finished; it never exceeds the number of cards.
\<close>

definition quiz_inv :: "quiz_state \<Rightarrow> bool" where
  "quiz_inv s \<longleftrightarrow>
     stats_total s = currentIndex s + (if feedback s \<noteq> Idle \<or> isFinished s then 1 else 0)
     \<and> stats_correct s \<le> stats_total s
     \<and> (feedback s \<noteq> Idle \<or> isFinished s \<longrightarrow> currentIndex s < length (quiz_cards s))
     \<and> currentIndex s \<le> length (quiz_cards s)
     \<and> (isFinished s \<longrightarrow> feedback s = Idle)"

text \<open>
  A runtime whose lowercasing keeps the empty string empty, a string that is not empty not
  empty, and its first and its last code unit white space or not as they were.  That of
  \<^verbatim>\<open>String.prototype.toLowerCase\<close> is one: no white space has a lowercase form or is one.
\<close>

definition lower_keeps_ends :: "platform \<Rightarrow> bool" where
  "lower_keeps_ends P \<longleftrightarrow>
     toLowerCase P [] = [] \<and>
     (\<forall>s. s \<noteq> [] \<longrightarrow>
        toLowerCase P s \<noteq> []
        \<and> isWhiteSpace (hd (toLowerCase P s)) = isWhiteSpace (hd s)
        \<and> isWhiteSpace (last (toLowerCase P s)) = isWhiteSpace (last s))"

section \<open>Sample cards and texts\<close>

definition card_apfel :: "rat \<Rightarrow> Card" where
  "card_apfel n =
     \<lparr> id_field = Finite n, lemma_field = js ''Apfel'', gender = JString (js ''m''),
       full_form = js ''Apfel'', translations_ko = [JString [0xC0AC, 0xACFC]],
       prompt_ko = JString [0xC0AC, 0xACFC], accepted_answers_de = [js ''apfel''],
       level = JString (js ''A1''), topic = JString (js ''Food''),
       language = JString (js ''German'') \<rparr>"

text \<open>The first word, the first word again with another full form, and a second word.\<close>

definition text_dup :: jsstring where
  "text_dup = line_hund @ [0xA] @ line_hund_article @ [0xA] @ line_apfel"

text \<open>The first word with an infinite gender, and then the first word twice.\<close>

definition text_inf :: jsstring where
  "text_inf = line_hund_inf @ [0xA] @ line_hund @ [0xA] @ line_hund"

definition card_guten_tag :: "rat \<Rightarrow> Card" where
  "card_guten_tag n =
     \<lparr> id_field = Finite n, lemma_field = js ''guten  Tag'', gender = JNull,
       full_form = js ''guten  Tag'', translations_ko = [JString (js ''good day'')],
       prompt_ko = JString (js ''good day''), accepted_answers_de = [js ''guten  tag''],
       level = JString (js ''Unknown''), topic = JString (js ''General''),
       language = JString (js ''German'') \<rparr>"

section \<open>Sample stores\<close>

text \<open>A memo of 31 code units, and a store in which the wrong cards do not decode.\<close>

definition memo_31 :: jsstring where
  "memo_31 = js ''this memo is one letter too big''"

definition storage_corrupt :: storage where
  "storage_corrupt = [STORAGE_KEY_WRONG_CARDS \<mapsto> js ''{'']"

section \<open>The loop as a whole\<close>

lemma processLine_classify:
  "processLine P clock (cs, seen, n) il =
     (case classify P clock il of
        Blank \<Rightarrow> (cs, seen, n)
      | Invalid \<Rightarrow> (cs, seen, n + 1)
      | Decoded c \<Rightarrow> if signature P c \<in> seen then (cs, seen, n)
                     else (cs @ [c], insert (signature P c) seen, n))"
  by (cases il) (simp add: processLine_def classify_def split: option.split sum.split)

lemma indexed_records_Cons:
  "indexed_records P clock (il # ils) =
     (case classify P clock il of Decoded c \<Rightarrow> [(fst il, c)] | _ \<Rightarrow> []) @ indexed_records P clock ils"
  by (simp add: indexed_records_def List.map_filter_simps split: line_outcome.split)

lemma foldl_processLine:
  "foldl (processLine P clock) (cs, seen, n) ils =
     (cs @ map snd (keep_new P seen (indexed_records P clock ils)),
      seen \<union> signature P ` snd ` set (indexed_records P clock ils),
      n + length (invalid_lines P clock ils))"
proof (induction ils arbitrary: cs seen n)
  case Nil
  show ?case by (simp add: indexed_records_def invalid_lines_def List.map_filter_simps)
next
  case (Cons il ils)
  show ?case
    by (cases "classify P clock il")
       (auto simp: processLine_classify Cons.IH indexed_records_Cons invalid_lines_def)
qed

lemma keep_new_filter:
  "sorted_wrt (<) (map fst recs) \<Longrightarrow>
   keep_new P seen recs =
     filter (\<lambda>ic. signature P (snd ic) \<notin> seen \<and>
                  (\<forall>jd \<in> set recs. fst jd < fst ic \<longrightarrow> signature P (snd jd) \<noteq> signature P (snd ic))) recs"
proof (induction recs arbitrary: seen)
  case Nil
  show ?case by simp
next
  case (Cons ic ics)
  have later: "\<forall>jd \<in> set ics. fst ic < fst jd" using Cons.prems by auto
  have srt: "sorted_wrt (<) (map fst ics)" using Cons.prems by simp
  show ?case
  proof (cases "signature P (snd ic) \<in> seen")
    case True
    have "keep_new P seen (ic # ics) = keep_new P seen ics" using True by simp
    also have "\<dots> = filter (\<lambda>x. signature P (snd x) \<notin> seen \<and>
                  (\<forall>jd \<in> set ics. fst jd < fst x \<longrightarrow> signature P (snd jd) \<noteq> signature P (snd x))) ics"
      by (rule Cons.IH [OF srt])
    also have "\<dots> = filter (\<lambda>x. signature P (snd x) \<notin> seen \<and>
                  (\<forall>jd \<in> set (ic # ics). fst jd < fst x \<longrightarrow> signature P (snd jd) \<noteq> signature P (snd x))) ics"
      using True by (intro filter_cong) auto
    finally show ?thesis using True by simp
  next
    case False
    have "keep_new P seen (ic # ics) = ic # keep_new P (insert (signature P (snd ic)) seen) ics"
      using False by simp
    also have "keep_new P (insert (signature P (snd ic)) seen) ics
       = filter (\<lambda>x. signature P (snd x) \<notin> insert (signature P (snd ic)) seen \<and>
                  (\<forall>jd \<in> set ics. fst jd < fst x \<longrightarrow> signature P (snd jd) \<noteq> signature P (snd x))) ics"
      by (rule Cons.IH [OF srt])
    also have "\<dots> = filter (\<lambda>x. signature P (snd x) \<notin> seen \<and>
                  (\<forall>jd \<in> set (ic # ics). fst jd < fst x \<longrightarrow> signature P (snd jd) \<noteq> signature P (snd x))) ics"
      using later by (intro filter_cong) auto
    finally show ?thesis using False later by auto
  qed
qed

lemma fst_indexed_records:
  "map fst (indexed_records P clock ils) = map fst (filter (\<lambda>il. \<exists>c. classify P clock il = Decoded c) ils)"
proof (induction ils)
  case Nil
  show ?case by (simp add: indexed_records_def List.map_filter_simps)
next
  case (Cons il ils)
  then show ?case by (cases "classify P clock il") (simp_all add: indexed_records_Cons)
qed

lemma sorted_indexed_records:
  "sorted_wrt (<) (map fst (indexed_records P clock (enumerate k ls)))"
proof -
  have "sorted_wrt (<) (map fst (enumerate k ls))" by (simp add: map_fst_enumerate sorted_wrt_upt)
  hence "sorted_wrt (\<lambda>a b. fst a < fst b) (enumerate k ls)" unfolding sorted_wrt_map .
  hence "sorted_wrt (\<lambda>a b. fst a < fst b) (filter (\<lambda>il. \<exists>c. classify P clock il = Decoded c) (enumerate k ls))"
    by (rule sorted_wrt_filter)
  thus ?thesis by (simp add: fst_indexed_records sorted_wrt_map)
qed

lemma ingest_loop_eq:
  "ingest_loop P clock ls =
     (map snd (first_by_signature P (indexed_records P clock (enumerate 0 ls))),
      signature P ` snd ` set (indexed_records P clock (enumerate 0 ls)),
      length (invalid_lines P clock (enumerate 0 ls)))"
  by (simp add: ingest_loop_def foldl_processLine keep_new_filter [OF sorted_indexed_records] first_by_signature_def)

lemma length_outcomes:
  "length (indexed_records P clock ils) + length (invalid_lines P clock ils)
     + length (filter (\<lambda>il. trim (snd il) = []) ils) = length ils"
proof (induction ils)
  case Nil
  show ?case by (simp add: indexed_records_def invalid_lines_def List.map_filter_simps)
next
  case (Cons il ils)
  have blank: "classify P clock il = Blank \<longleftrightarrow> trim (snd il) = []"
    by (cases il) (simp add: classify_def split: option.split sum.split)
  show ?case
    using Cons.IH blank
    by (cases "classify P clock il") (auto simp: indexed_records_Cons invalid_lines_def)
qed

lemma length_first_by_signature: "length (first_by_signature P recs) \<le> length recs"
  by (simp add: first_by_signature_def)

lemma ingest_loop_bound:
  assumes "ingest_loop P clock ls = (cs, seen, n)"
  shows "n + length cs \<le> length ls"
proof -
  have cs: "length cs \<le> length (indexed_records P clock (enumerate 0 ls))"
    using assms length_first_by_signature [of P "indexed_records P clock (enumerate 0 ls)"]
    by (auto simp: ingest_loop_eq)
  have n: "n = length (invalid_lines P clock (enumerate 0 ls))"
    using assms by (simp add: ingest_loop_eq)
  show ?thesis
    using cs n length_outcomes [of P clock "enumerate 0 ls"] by simp
qed

lemma half_rat: "(rat_of_nat a < rat_of_nat b * 0.5) = (2 * a < b)"
proof -
  have "(rat_of_nat a < rat_of_nat b * 0.5) = (rat_of_nat (2 * a) < rat_of_nat b)"
    by (simp add: field_simps)
  thus ?thesis by (simp only: of_nat_less_iff)
qed

lemma trim_empty_iff: "trim s = [] \<longleftrightarrow> (\<forall>c \<in> set s. isWhiteSpace c)"
proof (cases "dropWhile isWhiteSpace s")
  case Nil
  hence "\<forall>c \<in> set s. isWhiteSpace c" by (simp add: dropWhile_eq_Nil_conv)
  thus ?thesis by (simp add: trim_def Nil)
next
  case (Cons x xs)
  have "\<not> isWhiteSpace x" using Cons hd_dropWhile [of isWhiteSpace s] by auto
  hence "dropWhile isWhiteSpace (rev (x # xs)) \<noteq> []" by (auto simp: dropWhile_eq_Nil_conv)
  moreover have "\<not> (\<forall>c \<in> set s. isWhiteSpace c)"
    using Cons by (metis dropWhile_eq_Nil_conv list.distinct(1))
  ultimately have "trim s \<noteq> [] \<and> \<not> (\<forall>c \<in> set s. isWhiteSpace c)"
    unfolding trim_def Cons by simp
  thus ?thesis by simp
qed

lemma split_on_not_Nil: "split_on sep s \<noteq> []"
  by (induction s) (auto split: list.splits)

lemma set_split_on: "c \<in> set s \<Longrightarrow> c = sep \<or> (\<exists>l \<in> set (split_on sep s). c \<in> set l)"
proof (induction s)
  case Nil
  then show ?case by simp
next
  case (Cons a s)
  obtain l ls where sp: "split_on sep s = l # ls"
    using split_on_not_Nil [of sep s] by (cases "split_on sep s") auto
  show ?case
  proof (cases "a = sep")
    case True
    then show ?thesis using Cons by auto
  next
    case False
    then show ?thesis using Cons sp by auto
  qed
qed

lemma blank_text_lines:
  assumes "\<forall>l \<in> set (split_on 0xA text). trim l = []"
  shows "text_lines text = [[]]"
proof -
  have nl: "isWhiteSpace 0xA" by (simp add: isWhiteSpace_def)
  have "\<forall>c \<in> set text. isWhiteSpace c"
    using assms set_split_on [of _ "text" "0xA"] nl by (auto simp: trim_empty_iff)
  hence "trim text = []" by (simp add: trim_empty_iff)
  thus ?thesis by (simp add: text_lines_def)
qed

lemma processLine_blank: "trim line = [] \<Longrightarrow> processLine P clock st (i, line) = st"
  by (cases st) (simp add: processLine_def)

lemma trim_Nil: "trim [] = []"
  by (simp add: trim_def)

lemma parseJSONL_no_cards:
  "fst (ingest_loop P clock (text_lines text)) = [] \<Longrightarrow>
   parseJSONL P clock text = \<lparr> cards = [], error = Some msg_no_valid_cards \<rparr>"
  by (cases "ingest_loop P clock (text_lines text)") (simp add: parseJSONL_def Let_def)

lemma cards_parseJSONL: "cards (parseJSONL P clock text) = fst (ingest_loop P clock (text_lines text))"
  by (cases "ingest_loop P clock (text_lines text)") (simp add: parseJSONL_def Let_def)

section \<open>The sample lines, evaluated\<close>

lemmas sample_lines =
  line_apfel_def line_hund_def line_hund_id_def line_hund_article_def line_hund_inf_def
  line_hund_spaced_def line_guten_tag_def

lemma trim_line_hund: "trim line_hund = line_hund"
  by (simp add: trim_def line_hund_def js_def isWhiteSpace_def)

lemma line_hund_not_Nil: "line_hund \<noteq> []"
  by (simp add: line_hund_def js_def)

lemma trim_not_json: "trim (js ''not json'') \<noteq> []"
  by (simp add: trim_def js_def isWhiteSpace_def)

lemma trim_brace: "trim (js ''{'') \<noteq> []"
  by (simp add: trim_def js_def isWhiteSpace_def)

lemma sample_parse_not_json: "JSON_parse sample_platform (js ''not json'') = None"
  by (simp add: sample_platform_def sample_JSON_parse_def sample_lines js_def)

lemma sample_parse_brace: "JSON_parse sample_platform (js ''{'') = None"
  by (simp add: sample_platform_def sample_JSON_parse_def sample_lines js_def)

lemma sample_parse_hund: "JSON_parse sample_platform line_hund = Some obj_hund"
  by (simp add: sample_platform_def sample_JSON_parse_def sample_lines js_def)

lemma sample_parse_apfel: "JSON_parse sample_platform line_apfel = Some obj_apfel"
  by (simp add: sample_platform_def sample_JSON_parse_def)

lemma sample_lower_Hund: "toLowerCase sample_platform (js ''Hund'') = js ''hund''"
  by (simp add: sample_platform_def sample_toLowerCase_def js_def)

lemma sample_lower_Apfel: "toLowerCase sample_platform (js ''Apfel'') = js ''apfel''"
  by (simp add: sample_platform_def sample_toLowerCase_def js_def)

lemma validateCard_hund: "validateCard obj_hund"
  by (simp add: validateCard_def obj_hund_def js_def)

lemma makeCard_hund:
  "makeCard sample_platform clock i obj_hund = Inr (card_hund (of_int (clock i) + of_nat i))"
  by (simp add: makeCard_def obj_hund_def js_def cleanText_def replace_id_suffix_def isDigit_def
        or_else_def first_translation_def card_hund_def sample_lower_Hund [unfolded js_def, simplified])

lemma classify_hund:
  "classify sample_platform clock (i, line_hund) = Decoded (card_hund (of_int (clock i) + of_nat i))"
  by (simp add: classify_def trim_line_hund line_hund_not_Nil sample_parse_hund validateCard_hund
        makeCard_hund)

lemma classify_not_json: "classify sample_platform clock (i, js ''not json'') = Invalid"
  by (simp add: classify_def trim_not_json sample_parse_not_json)

lemma classify_brace: "classify sample_platform clock (i, js ''{'') = Invalid"
  by (simp add: classify_def trim_brace sample_parse_brace)

lemma classify_Nil: "classify P clock (i, []) = Blank"
  by (simp add: classify_def trim_def)

lemma text_lines_sparse: "text_lines text_sparse = [js ''not json'', [], [], line_hund]"
  by (simp add: text_sparse_def text_lines_def line_hund_def js_def trim_def isWhiteSpace_def)

lemma text_lines_mostly_bad: "text_lines text_mostly_bad = [js ''not json'', js ''{'', line_hund]"
  by (simp add: text_mostly_bad_def text_lines_def line_hund_def js_def trim_def isWhiteSpace_def)

lemma ingest_loop_sparse:
  "ingest_loop sample_platform (\<lambda>i. 1000) (text_lines text_sparse) =
     ([card_hund 1003], {signature sample_platform (card_hund 1003)}, 1)"
  by (simp add: text_lines_sparse ingest_loop_def processLine_classify classify_hund
        classify_not_json classify_Nil)

lemma ingest_loop_mostly_bad:
  "ingest_loop sample_platform (\<lambda>i. 1000) (text_lines text_mostly_bad) =
     ([card_hund 1002], {signature sample_platform (card_hund 1002)}, 2)"
  by (simp add: text_lines_mostly_bad ingest_loop_def processLine_classify classify_hund
        classify_not_json classify_brace)

section \<open>The result of ingestion\<close>

text \<open>
  C7.  A text that is empty or holds only blank lines, and more generally any text of which
  no card survives, gives the empty card list with the message that there is no valid card
  data; a blank line leaves the loop's state, and so the count of invalid lines, as it is.
\<close>

theorem C7_empty_result:
  "((\<forall>l \<in> set (split_on 0xA text). trim l = []) \<longrightarrow>
      parseJSONL P clock text = \<lparr> cards = [], error = Some msg_no_valid_cards \<rparr>)
   \<and> (cards (parseJSONL P clock text) = [] \<longrightarrow>
      parseJSONL P clock text = \<lparr> cards = [], error = Some msg_no_valid_cards \<rparr>)
   \<and> (trim line = [] \<longrightarrow> processLine P clock st (i, line) = st)"
proof -
  have a: "parseJSONL P clock text = \<lparr> cards = [], error = Some msg_no_valid_cards \<rparr>"
    if "\<forall>l \<in> set (split_on 0xA text). trim l = []"
  proof -
    have "text_lines text = [[]]" using that by (rule blank_text_lines)
    hence "fst (ingest_loop P clock (text_lines text)) = []"
      by (simp add: ingest_loop_def processLine_blank trim_Nil)
    thus ?thesis by (rule parseJSONL_no_cards)
  qed
  have b: "parseJSONL P clock text = \<lparr> cards = [], error = Some msg_no_valid_cards \<rparr>"
    if "cards (parseJSONL P clock text) = []"
    using that by (simp add: cards_parseJSONL parseJSONL_no_cards)
  show ?thesis using a b processLine_blank by blast
qed

theorem C7_empty_result_witness:
  "map trim (split_on 0xA text_blank) = [[], [], []]
   \<and> parseJSONL sample_platform (\<lambda>i. 1000) text_blank =
       \<lparr> cards = [], error = Some msg_no_valid_cards \<rparr>"
proof -
  have m: "map trim (split_on 0xA text_blank) = [[], [], []]"
    by (simp add: text_blank_def trim_def isWhiteSpace_def)
  have h: "\<forall>l \<in> set (split_on 0xA text_blank). trim l = []"
    by (simp add: text_blank_def trim_def isWhiteSpace_def)
  show ?thesis
    using m h C7_empty_result [of text_blank sample_platform "\<lambda>i. 1000"] by blast
qed

text \<open>
  C1, as the specification states it, fails: with one undecodable line among four (two of
  them blank) the warning is given, though one invalid line is not more than half of four.
\<close>

theorem C1_counterexample:
  "error (parseJSONL sample_platform (\<lambda>i. 1000) text_sparse) = Some (msg_many_invalid 1)
   \<and> length (invalid_lines sample_platform (\<lambda>i. 1000) (enumerate 0 (text_lines text_sparse))) = 1
   \<and> length (text_lines text_sparse) = 4
   \<and> \<not> (4 < 2 * (1::nat))"
proof -
  have "error (parseJSONL sample_platform (\<lambda>i. 1000) text_sparse) = Some (msg_many_invalid 1)"
    by (simp add: parseJSONL_def Let_def ingest_loop_sparse) (simp add: text_lines_sparse)
  moreover have "length (invalid_lines sample_platform (\<lambda>i. 1000) (enumerate 0 (text_lines text_sparse))) = 1"
    by (simp add: invalid_lines_def text_lines_sparse classify_hund classify_not_json classify_Nil)
  moreover have "length (text_lines text_sparse) = 4"
    by (simp add: text_lines_sparse)
  ultimately show ?thesis by simp
qed

text \<open>
  C1, amended.  When at least one card survives, the result holds the surviving cards, and
  it holds the warning that names the count of invalid lines exactly when that count is
  positive and the surviving cards are fewer than half of the lines of the trimmed text
  (blank lines and dropped duplicates are lines too); otherwise it holds no error.  The
  count is that of the lines that do not decode, fail validation or throw while the card is
  built.  Whenever it exceeds half of the line count, the warning is given.
\<close>

theorem C1_partial_corruption:
  assumes "ingest_loop P clock (text_lines text) = (cs, seen, n)" and "cs \<noteq> []"
  shows "parseJSONL P clock text =
           \<lparr> cards = cs,
             error = (if 0 < n \<and> 2 * length cs < length (text_lines text)
                      then Some (msg_many_invalid n) else None) \<rparr>
         \<and> n = length (invalid_lines P clock (enumerate 0 (text_lines text)))
         \<and> (length (text_lines text) < 2 * n \<longrightarrow>
              0 < n \<and> 2 * length cs < length (text_lines text))"
proof -
  have res: "parseJSONL P clock text =
           \<lparr> cards = cs,
             error = (if 0 < n \<and> 2 * length cs < length (text_lines text)
                      then Some (msg_many_invalid n) else None) \<rparr>"
    using assms by (simp add: parseJSONL_def Let_def half_rat)
  have n: "n = length (invalid_lines P clock (enumerate 0 (text_lines text)))"
    using assms(1) by (simp add: ingest_loop_eq)
  have "n + length cs \<le> length (text_lines text)"
    using assms(1) by (rule ingest_loop_bound)
  hence "length (text_lines text) < 2 * n \<longrightarrow> 0 < n \<and> 2 * length cs < length (text_lines text)"
    by arith
  with res n show ?thesis by blast
qed

theorem C1_partial_corruption_witness:
  "ingest_loop sample_platform (\<lambda>i. 1000) (text_lines text_mostly_bad) =
     ([card_hund 1002], {signature sample_platform (card_hund 1002)}, 2)
   \<and> [card_hund 1002] \<noteq> []
   \<and> parseJSONL sample_platform (\<lambda>i. 1000) text_mostly_bad =
       \<lparr> cards = [card_hund 1002], error = Some (msg_many_invalid 2) \<rparr>"
proof -
  have ne: "[card_hund 1002] \<noteq> []" by simp
  have "parseJSONL sample_platform (\<lambda>i. 1000) text_mostly_bad =
       \<lparr> cards = [card_hund 1002], error = Some (msg_many_invalid 2) \<rparr>"
    using C1_partial_corruption [OF ingest_loop_mostly_bad ne]
    by (simp add: text_lines_mostly_bad)
  with ingest_loop_mostly_bad ne show ?thesis by blast
qed

text \<open>
  C8.  The single line of the end-to-end example gives exactly one card, with full form
  Apfel, accepted answers apfel, language German and the translation as prompt, and no
  error.  The runtime is asked for two things only: that it decodes the line to the record
  the line writes, and that it lowers Apfel to apfel.
\<close>

theorem C8_end_to_end:
  assumes "JSON_parse P line_apfel = Some obj_apfel"
    and "toLowerCase P (js ''Apfel'') = js ''apfel''"
  shows "parseJSONL P clock line_apfel =
     \<lparr> cards = [\<lparr> id_field = Finite (of_int (clock 0)), lemma_field = js ''Apfel'',
                   gender = JString (js ''m''), full_form = js ''Apfel'',
                   translations_ko = [JString [0xC0AC, 0xACFC]],
                   prompt_ko = JString [0xC0AC, 0xACFC],
                   accepted_answers_de = [js ''apfel''],
                   level = JString (js ''A1''), topic = JString (js ''Food''),
                   language = JString (js ''German'') \<rparr>],
       error = None \<rparr>"
proof -
  have lines: "text_lines line_apfel = [line_apfel]"
    by (simp add: text_lines_def line_apfel_def js_def trim_def isWhiteSpace_def)
  have tr: "trim line_apfel \<noteq> []"
    by (simp add: line_apfel_def js_def trim_def isWhiteSpace_def)
  have valid: "validateCard obj_apfel"
    by (simp add: validateCard_def obj_apfel_def js_def)
  have card: "makeCard P clock 0 obj_apfel =
     Inr \<lparr> id_field = Finite (of_int (clock 0)), lemma_field = js ''Apfel'',
                   gender = JString (js ''m''), full_form = js ''Apfel'',
                   translations_ko = [JString [0xC0AC, 0xACFC]],
                   prompt_ko = JString [0xC0AC, 0xACFC],
                   accepted_answers_de = [js ''apfel''],
                   level = JString (js ''A1''), topic = JString (js ''Food''),
                   language = JString (js ''German'') \<rparr>"
    by (simp add: makeCard_def obj_apfel_def js_def cleanText_def replace_id_suffix_def
          isDigit_def or_else_def first_translation_def assms(2) [unfolded js_def, simplified])
  show ?thesis
    by (simp add: parseJSONL_def Let_def lines ingest_loop_def processLine_def tr assms(1) valid card)
qed

theorem C8_end_to_end_witness:
  "JSON_parse sample_platform line_apfel = Some obj_apfel
   \<and> toLowerCase sample_platform (js ''Apfel'') = js ''apfel''
   \<and> parseJSONL sample_platform (\<lambda>i. 1000) line_apfel =
     \<lparr> cards = [\<lparr> id_field = Finite 1000, lemma_field = js ''Apfel'',
                   gender = JString (js ''m''), full_form = js ''Apfel'',
                   translations_ko = [JString [0xC0AC, 0xACFC]],
                   prompt_ko = JString [0xC0AC, 0xACFC],
                   accepted_answers_de = [js ''apfel''],
                   level = JString (js ''A1''), topic = JString (js ''Food''),
                   language = JString (js ''German'') \<rparr>],
       error = None \<rparr>"
  using C8_end_to_end [OF sample_parse_apfel sample_lower_Apfel, of "\<lambda>i. 1000"]
  by (simp add: sample_parse_apfel sample_lower_Apfel)

section \<open>The normaliser\<close>

lemma makeCard_cong_fields:
  assumes "field a (js ''lemma'') = field b (js ''lemma'')"
    and "field a (js ''full_form'') = field b (js ''full_form'')"
    and "field a (js ''accepted_answers_de'') = field b (js ''accepted_answers_de'')"
    and "field a (js ''id'') = field b (js ''id'')"
    and "field a (js ''translations_ko'') = field b (js ''translations_ko'')"
    and "or_else (field a (js ''gender'')) JNull = or_else (field b (js ''gender'')) JNull"
    and "\<And>d. or_else (field a (js ''prompt_ko'')) d = or_else (field b (js ''prompt_ko'')) d"
    and "or_else (field a (js ''level'')) (JString (js ''Unknown''))
         = or_else (field b (js ''level'')) (JString (js ''Unknown''))"
    and "or_else (field a (js ''topic'')) (JString (js ''General''))
         = or_else (field b (js ''topic'')) (JString (js ''General''))"
    and "or_else (field a (js ''language'')) (JString (js ''German''))
         = or_else (field b (js ''language'')) (JString (js ''German''))"
  shows "makeCard P clock i a = makeCard P clock i b"
  unfolding makeCard_def first_translation_def
  by (simp only: assms)

lemma or_else_empty_absent: "or_else (Some (JString [])) d = or_else None d"
  by (simp add: or_else_def)

lemma prompt_default:
  "or_else (first_translation obj) (JString (js ''???'')) =
     (case (case field obj (js ''translations_ko'') of Some (JArray ts) \<Rightarrow> ts | _ \<Rightarrow> []) of
        t # ts \<Rightarrow> if truthy (Some t) then t else JString (js ''???'')
      | [] \<Rightarrow> JString (js ''???''))"
  by (simp add: or_else_def first_translation_def split: option.split json.split list.split)

lemma makeCard_Inr_fields:
  assumes "makeCard P clock i obj = Inr c"
  shows "gender c = or_else (field obj (js ''gender'')) JNull"
    and "level c = or_else (field obj (js ''level'')) (JString (js ''Unknown''))"
    and "topic c = or_else (field obj (js ''topic'')) (JString (js ''General''))"
    and "language c = or_else (field obj (js ''language'')) (JString (js ''German''))"
    and "prompt_ko c = or_else (field obj (js ''prompt_ko''))
                         (or_else (first_translation obj) (JString (js ''???'')))"
    and "translations_ko c = (case field obj (js ''translations_ko'') of
                                Some (JArray ts) \<Rightarrow> ts | _ \<Rightarrow> [])"
  using assms by (auto simp: makeCard_def split: sum.splits)

lemma validateCard_cong_fields:
  assumes "field (JObject a) (js ''lemma'') = field (JObject b) (js ''lemma'')"
    and "field (JObject a) (js ''translations_ko'') = field (JObject b) (js ''translations_ko'')"
  shows "validateCard (JObject a) = validateCard (JObject b)"
  unfolding validateCard_def by (simp only: assms json.case)

lemma processLine_cong_record:
  assumes "JSON_parse P l1 = Some a" and "JSON_parse P l2 = Some b"
    and "trim l1 \<noteq> []" and "trim l2 \<noteq> []"
    and "validateCard a = validateCard b" and "makeCard P clock i a = makeCard P clock i b"
  shows "processLine P clock st (i, l1) = processLine P clock st (i, l2)"
  using assms by (cases st) (simp add: processLine_def)

text \<open>
  C10.  A record in which gender, level, topic, language or prompt_ko is the empty string
  is validated and normalised exactly as the record without that property: the same card or
  the same exception, and the same step of the ingestion loop.  The card then holds the
  default: null, Unknown, General, German, and for the prompt the first translation (the
  placeholder when there is none or it is falsy).
\<close>

theorem C10_empty_string_is_absent:
  assumes "k \<in> {js ''gender'', js ''level'', js ''topic'', js ''language'', js ''prompt_ko''}"
    and "map_of o1 k = Some (JString [])"
    and "map_of o2 k = None"
    and "\<forall>f. f \<noteq> k \<longrightarrow> map_of o1 f = map_of o2 f"
  shows "validateCard (JObject o1) = validateCard (JObject o2)
     \<and> makeCard P clock i (JObject o1) = makeCard P clock i (JObject o2)
     \<and> (\<forall>c. makeCard P clock i (JObject o1) = Inr c \<longrightarrow>
           (k = js ''gender'' \<longrightarrow> gender c = JNull)
         \<and> (k = js ''level'' \<longrightarrow> level c = JString (js ''Unknown''))
         \<and> (k = js ''topic'' \<longrightarrow> topic c = JString (js ''General''))
         \<and> (k = js ''language'' \<longrightarrow> language c = JString (js ''German''))
         \<and> (k = js ''prompt_ko'' \<longrightarrow>
               prompt_ko c = (case translations_ko c of
                                t # ts \<Rightarrow> if truthy (Some t) then t else JString (js ''???'')
                              | [] \<Rightarrow> JString (js ''???''))))
     \<and> (\<forall>st l1 l2. JSON_parse P l1 = Some (JObject o1) \<and> JSON_parse P l2 = Some (JObject o2)
            \<and> trim l1 \<noteq> [] \<and> trim l2 \<noteq> [] \<longrightarrow>
            processLine P clock st (i, l1) = processLine P clock st (i, l2))"
proof -
  have other: "field (JObject o1) f = field (JObject o2) f" if "f \<noteq> k" for f
    using assms(4) that by simp
  have same: "or_else (field (JObject o1) f) d = or_else (field (JObject o2) f) d" for f d
  proof (cases "f = k")
    case True
    then show ?thesis using assms(2,3) by (simp add: or_else_empty_absent)
  next
    case False
    then show ?thesis using other [of f] by simp
  qed
  have names:
    "js ''lemma'' \<noteq> k" "js ''full_form'' \<noteq> k" "js ''accepted_answers_de'' \<noteq> k"
    "js ''id'' \<noteq> k" "js ''translations_ko'' \<noteq> k"
    using assms(1) by (auto simp: js_def)
  have v: "validateCard (JObject o1) = validateCard (JObject o2)"
    by (rule validateCard_cong_fields) (rule other, rule names)+
  have m: "makeCard P clock i (JObject o1) = makeCard P clock i (JObject o2)"
    by (rule makeCard_cong_fields) ((rule other, rule names)+, (rule same)+)
  have d: "(k = js ''gender'' \<longrightarrow> gender c = JNull)
         \<and> (k = js ''level'' \<longrightarrow> level c = JString (js ''Unknown''))
         \<and> (k = js ''topic'' \<longrightarrow> topic c = JString (js ''General''))
         \<and> (k = js ''language'' \<longrightarrow> language c = JString (js ''German''))
         \<and> (k = js ''prompt_ko'' \<longrightarrow>
               prompt_ko c = (case translations_ko c of
                                t # ts \<Rightarrow> if truthy (Some t) then t else JString (js ''???'')
                              | [] \<Rightarrow> JString (js ''???'')))"
    if c: "makeCard P clock i (JObject o2) = Inr c" for c
  proof -
    have absent: "or_else (field (JObject o2) k) x = x" for x
      using assms(3) by (simp add: or_else_def)
    show ?thesis
      using makeCard_Inr_fields [OF c] absent
      by (auto simp: prompt_default)
  qed
  have p: "processLine P clock st (i, l1) = processLine P clock st (i, l2)"
    if "JSON_parse P l1 = Some (JObject o1)" "JSON_parse P l2 = Some (JObject o2)"
       "trim l1 \<noteq> []" "trim l2 \<noteq> []" for st l1 l2
    using that v m by (rule processLine_cong_record)
  show ?thesis using v m d p by (simp only: m) blast
qed

theorem C10_empty_string_is_absent_witness:
  "map_of props_hund_empty_level (js ''level'') = Some (JString [])
   \<and> map_of props_hund (js ''level'') = None
   \<and> makeCard sample_platform (\<lambda>i. 1000) 0 (JObject props_hund_empty_level) = Inr (card_hund 1000)
   \<and> makeCard sample_platform (\<lambda>i. 1000) 0 (JObject props_hund) = Inr (card_hund 1000)
   \<and> level (card_hund 1000) = JString (js ''Unknown'')"
proof -
  have k: "js ''level'' \<in> {js ''gender'', js ''level'', js ''topic'', js ''language'', js ''prompt_ko''}"
    by simp
  have h1: "map_of props_hund_empty_level (js ''level'') = Some (JString [])"
    by (simp add: props_hund_empty_level_def js_def)
  have h2: "map_of props_hund (js ''level'') = None"
    by (simp add: props_hund_def js_def)
  have h3: "\<forall>f. f \<noteq> js ''level'' \<longrightarrow> map_of props_hund_empty_level f = map_of props_hund f"
    by (simp add: props_hund_def props_hund_empty_level_def)
  have m: "makeCard sample_platform (\<lambda>i. 1000) 0 (JObject props_hund) = Inr (card_hund 1000)"
    using makeCard_hund [of "\<lambda>i. 1000" 0] by (simp add: obj_hund_def props_hund_def)
  have l: "level (card_hund 1000) = JString (js ''Unknown'')"
    by (simp add: card_hund_def)
  show ?thesis
    using C10_empty_string_is_absent [OF k h1 h2 h3, of sample_platform "\<lambda>i. 1000" 0] h1 h2 m l
    by simp
qed

text \<open>
  C9.  A memo text of more than 30 code units is refused: the memos, with the card's earlier
  memo or its absence, and the store are as they were.
\<close>

theorem C9_long_memo_rejected:
  assumes "length text > 30"
  shows "handleMemoChange stringify_memos (memos, localStorage) cardId text = (memos, localStorage)"
  using assms by (simp add: handleMemoChange_def)

theorem C9_long_memo_rejected_witness:
  "length memo_31 = 31
   \<and> handleMemoChange (\<lambda>m. js ''{}'') ([Finite 7 \<mapsto> js ''der Hund''], Map.empty) (Finite 7) memo_31
       = ([Finite 7 \<mapsto> js ''der Hund''], Map.empty)"
proof -
  have l: "length memo_31 = 31" by (simp add: memo_31_def js_def)
  hence "length memo_31 > 30" by simp
  from C9_long_memo_rejected [OF this] l show ?thesis by blast
qed

text \<open>
  C4.  With a stored wrong-card list that does not decode, the effect that loads the list
  recovers to the empty list, but \<^verbatim>\<open>saveWrongCard\<close> throws the decoder's SyntaxError, and
  so does the submission of a wrong answer, after the statistics and the feedback were set.
\<close>

theorem C4_corrupt_store_throws:
  assumes "localStorage STORAGE_KEY_WRONG_CARDS = Some stored"
    and "stored \<noteq> []"
    and "JSON_parse P stored = None"
  shows "loadSavedWrongCards P localStorage = JArray []
     \<and> saveWrongCard P localStorage c = Inl SyntaxError
     \<and> (\<not> isFinished st \<and> feedback st = Idle \<and> trim (input st) \<noteq> []
          \<and> currentIndex st < length (quiz_cards st)
          \<and> normalizeAnswer P (input st) \<notin> set (accepted_answers_de (quiz_cards st ! currentIndex st))
        \<longrightarrow> fst (handleSubmit P (localStorage, st)) = Some SyntaxError)"
  using assms by (simp add: loadSavedWrongCards_def saveWrongCard_def handleSubmit_def Let_def)

theorem C4_corrupt_store_throws_witness:
  "storage_corrupt STORAGE_KEY_WRONG_CARDS = Some (js ''{'')
   \<and> js ''{'' \<noteq> []
   \<and> JSON_parse sample_platform (js ''{'') = None
   \<and> loadSavedWrongCards sample_platform storage_corrupt = JArray []
   \<and> saveWrongCard sample_platform storage_corrupt (card_hund 7) = Inl SyntaxError
   \<and> fst (handleSubmit sample_platform
            (storage_corrupt, (init_quiz [card_hund 7])\<lparr> input := js ''Katze'' \<rparr>)) = Some SyntaxError"
proof -
  have h1: "storage_corrupt STORAGE_KEY_WRONG_CARDS = Some (js ''{'')"
    by (simp add: storage_corrupt_def)
  have h2: "js ''{'' \<noteq> []" by (simp add: js_def)
  have h3: "JSON_parse sample_platform (js ''{'') = None" by (rule sample_parse_brace)
  have q: "\<not> isFinished ((init_quiz [card_hund 7])\<lparr> input := js ''Katze'' \<rparr>)
      \<and> feedback ((init_quiz [card_hund 7])\<lparr> input := js ''Katze'' \<rparr>) = Idle
      \<and> trim (input ((init_quiz [card_hund 7])\<lparr> input := js ''Katze'' \<rparr>)) \<noteq> []
      \<and> currentIndex ((init_quiz [card_hund 7])\<lparr> input := js ''Katze'' \<rparr>)
          < length (quiz_cards ((init_quiz [card_hund 7])\<lparr> input := js ''Katze'' \<rparr>))
      \<and> normalizeAnswer sample_platform (input ((init_quiz [card_hund 7])\<lparr> input := js ''Katze'' \<rparr>))
          \<notin> set (accepted_answers_de (quiz_cards ((init_quiz [card_hund 7])\<lparr> input := js ''Katze'' \<rparr>)
                   ! currentIndex ((init_quiz [card_hund 7])\<lparr> input := js ''Katze'' \<rparr>)))"
    by (simp add: init_quiz_def card_hund_def normalizeAnswer_def sample_platform_def
          sample_toLowerCase_def trim_def isWhiteSpace_def js_def)
  show ?thesis
    using C4_corrupt_store_throws [where localStorage = storage_corrupt and stored = "js ''{''"
        and P = sample_platform and c = "card_hund 7"
        and st = "(init_quiz [card_hund 7])\<lparr> input := js ''Katze'' \<rparr>"]
      h1 h2 h3 q
    by blast
qed

section \<open>Two runs on one text\<close>

lemma makeCard_two_clocks:
  "(\<exists>e. makeCard P clock1 i obj = Inl e \<and> makeCard P clock2 i obj = Inl e)
   \<or> (\<exists>a b. makeCard P clock1 i obj = Inr a \<and> makeCard P clock2 i obj = Inr b
          \<and> erase_id a = erase_id b \<and> signature P a = signature P b)"
  by (auto simp: makeCard_def erase_id_def signature_def signature_object_def split: sum.splits)

lemma classify_two_clocks:
  "(classify P clock1 il = Blank \<and> classify P clock2 il = Blank)
   \<or> (classify P clock1 il = Invalid \<and> classify P clock2 il = Invalid)
   \<or> (\<exists>a b. classify P clock1 il = Decoded a \<and> classify P clock2 il = Decoded b
          \<and> erase_id a = erase_id b \<and> signature P a = signature P b)"
proof (cases il)
  case (Pair i line)
  show ?thesis
  proof (cases "trim line = []")
    case True
    then show ?thesis by (simp add: classify_def Pair)
  next
    case False
    show ?thesis
    proof (cases "JSON_parse P line")
      case None
      then show ?thesis using False by (simp add: classify_def Pair)
    next
      case (Some obj)
      show ?thesis
        using makeCard_two_clocks [of P clock1 i obj clock2] False Some
        by (auto simp: classify_def Pair)
    qed
  qed
qed

lemma foldl_two_clocks:
  assumes "map erase_id cs1 = map erase_id cs2"
  shows "\<exists>r1 r2 S n. foldl (processLine P clock1) (cs1, seen, k) ils = (r1, S, n)
           \<and> foldl (processLine P clock2) (cs2, seen, k) ils = (r2, S, n)
           \<and> map erase_id r1 = map erase_id r2"
  using assms
proof (induction ils arbitrary: cs1 cs2 seen k)
  case Nil
  then show ?case by simp
next
  case (Cons il ils)
  have step: "\<exists>r1 r2 S n. processLine P clock1 (cs1, seen, k) il = (r1, S, n)
           \<and> processLine P clock2 (cs2, seen, k) il = (r2, S, n)
           \<and> map erase_id r1 = map erase_id r2"
    using classify_two_clocks [of P clock1 il clock2] Cons.prems
    by (auto simp: processLine_classify)
  then obtain r1 r2 S n where
    s1: "processLine P clock1 (cs1, seen, k) il = (r1, S, n)" and
    s2: "processLine P clock2 (cs2, seen, k) il = (r2, S, n)" and
    e: "map erase_id r1 = map erase_id r2" by blast
  show ?case using Cons.IH [OF e, of S n] by (simp add: s1 s2)
qed

lemma parseJSONL_two_clocks:
  "error (parseJSONL P clock1 text) = error (parseJSONL P clock2 text)
   \<and> map erase_id (cards (parseJSONL P clock1 text)) = map erase_id (cards (parseJSONL P clock2 text))"
proof -
  obtain r1 r2 S n where
    l1: "ingest_loop P clock1 (text_lines text) = (r1, S, n)" and
    l2: "ingest_loop P clock2 (text_lines text) = (r2, S, n)" and
    e: "map erase_id r1 = map erase_id r2"
    using foldl_two_clocks [of "[]" "[]" P clock1 "{}" 0 "enumerate 0 (text_lines text)" clock2]
    unfolding ingest_loop_def by auto
  have len: "length r1 = length r2" using e by (metis length_map)
  have emp: "r1 = [] \<longleftrightarrow> r2 = []" using len by auto
  show ?thesis
  proof (cases "r1 = []")
    case True
    then show ?thesis using emp by (simp add: parseJSONL_def Let_def l1 l2)
  next
    case False
    then show ?thesis using emp e by (simp add: parseJSONL_def Let_def l1 l2 len)
  qed
qed

lemma makeCard_same_clock:
  "clock1 i = clock2 i \<Longrightarrow> makeCard P clock1 i obj = makeCard P clock2 i obj"
  by (simp add: makeCard_def cong del: sum.case_cong_weak option.case_cong_weak json.case_cong_weak)

lemma makeCard_numeric_id:
  "field obj (js ''id'') = Some (JNumber n) \<Longrightarrow> makeCard P clock1 i obj = makeCard P clock2 i obj"
  by (auto simp: makeCard_def split: sum.splits)

lemma processLine_same_reads:
  assumes "reads_clock P line \<longrightarrow> clock1 i = clock2 i"
  shows "processLine P clock1 st (i, line) = processLine P clock2 st (i, line)"
proof (cases "reads_clock P line")
  case True
  then have "makeCard P clock1 i obj = makeCard P clock2 i obj" for obj
    using assms makeCard_same_clock by blast
  then show ?thesis by (cases st) (auto simp: processLine_def split: option.splits)
next
  case False
  show ?thesis
  proof (cases "trim line = []")
    case True
    then show ?thesis by (cases st) (simp add: processLine_def)
  next
    case nb: False
    show ?thesis
    proof (cases "JSON_parse P line")
      case None
      then show ?thesis by (cases st) (simp add: processLine_def)
    next
      case (Some obj)
      show ?thesis
      proof (cases "validateCard obj")
        case v: True
        then obtain n where "field obj (js ''id'') = Some (JNumber n)"
          using False nb Some by (auto simp: reads_clock_def split: option.splits json.splits)
        then have "makeCard P clock1 i obj = makeCard P clock2 i obj"
          by (rule makeCard_numeric_id)
        then show ?thesis using Some by (cases st) (simp add: processLine_def)
      next
        case False
        then show ?thesis using Some by (cases st) (simp add: processLine_def)
      qed
    qed
  qed
qed

lemma parseJSONL_same_reads:
  assumes "\<forall>il \<in> set (enumerate 0 (text_lines text)). reads_clock P (snd il) \<longrightarrow> clock1 (fst il) = clock2 (fst il)"
  shows "parseJSONL P clock1 text = parseJSONL P clock2 text"
proof -
  have "foldl (processLine P clock1) ([], {}, 0) (enumerate 0 (text_lines text))
      = foldl (processLine P clock2) ([], {}, 0) (enumerate 0 (text_lines text))"
  proof (rule foldl_cong [OF refl refl])
    fix st il
    assume "il \<in> set (enumerate 0 (text_lines text))"
    then have "reads_clock P (snd il) \<longrightarrow> clock1 (fst il) = clock2 (fst il)" using assms by blast
    then show "processLine P clock1 st il = processLine P clock2 st il"
      using processLine_same_reads [of P "snd il" clock1 "fst il" clock2 st] by simp
  qed
  then show ?thesis by (simp add: parseJSONL_def ingest_loop_def)
qed

text \<open>
  C2, as the specification states it, fails: a record without a number as id gets
  \<^verbatim>\<open>Date.now() + index\<close>, so two runs on the same text at different times give cards with
  different ids.
\<close>

theorem C2_counterexample:
  "map id_field (cards (parseJSONL sample_platform (\<lambda>i. 1000) line_hund)) = [Finite 1000]
   \<and> map id_field (cards (parseJSONL sample_platform (\<lambda>i. 2000) line_hund)) = [Finite 2000]"
proof -
  have lines: "text_lines line_hund = [line_hund]"
    by (simp add: text_lines_def line_hund_def js_def trim_def isWhiteSpace_def)
  show ?thesis
    by (simp add: cards_parseJSONL lines ingest_loop_def processLine_classify classify_hund
          card_hund_def)
qed

text \<open>
  C2, amended.  Two runs of ingest on the same text give the same error or absence of error
  and the same cards in the same order, the same records dropped as duplicates, all fields
  equal except the id.  When the two runs read the same clock value at every line that reads
  the clock (every line, in particular, that decodes to a valid record without a number as
  id), the results are identical, ids included.
\<close>

theorem C2_deterministic_up_to_generated_id:
  "error (parseJSONL P clock1 text) = error (parseJSONL P clock2 text)
   \<and> map erase_id (cards (parseJSONL P clock1 text)) = map erase_id (cards (parseJSONL P clock2 text))
   \<and> ((\<forall>il \<in> set (enumerate 0 (text_lines text)).
          reads_clock P (snd il) \<longrightarrow> clock1 (fst il) = clock2 (fst il))
        \<longrightarrow> parseJSONL P clock1 text = parseJSONL P clock2 text)"
  using parseJSONL_two_clocks [of P clock1 "text" clock2] parseJSONL_same_reads [of "text" P clock1 clock2]
  by blast

theorem C2_deterministic_up_to_generated_id_witness:
  "text_lines line_hund_id = [line_hund_id]
   \<and> \<not> reads_clock sample_platform line_hund_id
   \<and> parseJSONL sample_platform (\<lambda>i. 1000) line_hund_id
       = parseJSONL sample_platform (\<lambda>i. 2000) line_hund_id"
proof -
  have lines: "text_lines line_hund_id = [line_hund_id]"
    by (simp add: text_lines_def line_hund_id_def js_def trim_def isWhiteSpace_def)
  have parse: "JSON_parse sample_platform line_hund_id = Some obj_hund_id"
    by (simp add: sample_platform_def sample_JSON_parse_def sample_lines js_def)
  have nr: "\<not> reads_clock sample_platform line_hund_id"
    by (simp add: reads_clock_def parse) (simp add: obj_hund_id_def js_def)
  have h: "\<forall>il \<in> set (enumerate 0 (text_lines line_hund_id)).
          reads_clock sample_platform (snd il) \<longrightarrow> (\<lambda>i. 1000::int) (fst il) = (\<lambda>i. 2000) (fst il)"
    using nr by (simp add: lines)
  show ?thesis
    using C2_deterministic_up_to_generated_id [of sample_platform "\<lambda>i. 1000" line_hund_id "\<lambda>i. 2000"]
      h lines nr by blast
qed

section \<open>Deduplication\<close>

lemma signature_dedup_tuple:
  "dedup_tuple c = dedup_tuple d \<Longrightarrow> signature P c = signature P d"
  by (simp add: signature_def signature_object_def dedup_tuple_def)

lemma later_duplicate_dropped:
  assumes "ic \<in> set recs" and "jd \<in> set recs" and "fst ic < fst jd"
    and "dedup_tuple (snd ic) = dedup_tuple (snd jd)"
  shows "jd \<notin> set (first_by_signature P recs)"
  using assms signature_dedup_tuple [of "snd ic" "snd jd" P]
  by (auto simp: first_by_signature_def)

lemma allCards_handleAddFile:
  "allCards (handleAddFile loadedFiles f) = allCards loadedFiles @ file_cards f"
  by (simp add: allCards_def handleAddFile_def)

lemma signature_object_tuple:
  "signature_object c = signature_object d \<longleftrightarrow> dedup_tuple c = dedup_tuple d"
  by (auto simp: signature_object_def dedup_tuple_def)

lemma first_by_signature_tuple:
  assumes "inj_on (JSON_stringify P) (signature_object ` snd ` set recs)"
  shows "first_by_signature P recs = first_by_tuple recs"
  unfolding first_by_signature_def first_by_tuple_def
proof (rule filter_cong [OF refl])
  fix ic assume ic: "ic \<in> set recs"
  have "signature P (snd jd) = signature P (snd ic) \<longleftrightarrow> dedup_tuple (snd jd) = dedup_tuple (snd ic)"
    if jd: "jd \<in> set recs" for jd
  proof -
    have "signature P (snd jd) = signature P (snd ic)
            \<longleftrightarrow> signature_object (snd jd) = signature_object (snd ic)"
      unfolding signature_def using assms ic jd by (auto dest: inj_onD)
    then show ?thesis by (simp only: signature_object_tuple)
  qed
  then show "(\<forall>jd\<in>set recs. fst jd < fst ic \<longrightarrow> signature P (snd jd) \<noteq> signature P (snd ic)) =
             (\<forall>jd\<in>set recs. fst jd < fst ic \<longrightarrow> dedup_tuple (snd jd) \<noteq> dedup_tuple (snd ic))"
    by blast
qed

lemma first_of_signature_survives:
  assumes "jd \<in> set recs"
  shows "\<exists>ic \<in> set (first_by_signature P recs).
           fst ic \<le> fst jd \<and> signature P (snd ic) = signature P (snd jd)"
proof -
  let ?Q = "\<lambda>x. x \<in> set recs \<and> signature P (snd x) = signature P (snd jd)"
  have "?Q jd" using assms by simp
  then obtain ic where ic: "?Q ic" and least: "\<forall>y. ?Q y \<longrightarrow> fst ic \<le> fst y"
    using ex_has_least_nat [of ?Q jd fst] by blast
  have "ic \<in> set (first_by_signature P recs)"
    unfolding first_by_signature_def using ic least by fastforce
  moreover have "fst ic \<le> fst jd" using least \<open>?Q jd\<close> by blast
  ultimately show ?thesis using ic by blast
qed

lemma text_lines_dup: "text_lines text_dup = [line_hund, line_hund_article, line_apfel]"
  by (simp add: text_dup_def text_lines_def sample_lines js_def trim_def isWhiteSpace_def)

lemma classify_hund_article:
  "classify sample_platform clock (i, line_hund_article)
     = Decoded ((card_hund (of_int (clock i) + of_nat i))\<lparr> full_form := js ''der Hund'' \<rparr>)"
proof -
  have tr: "trim line_hund_article \<noteq> []"
    by (simp add: line_hund_article_def trim_def js_def isWhiteSpace_def)
  have parse: "JSON_parse sample_platform line_hund_article = Some obj_hund_article"
    by (simp add: sample_platform_def sample_JSON_parse_def sample_lines js_def)
  have valid: "validateCard obj_hund_article"
    by (simp add: validateCard_def obj_hund_article_def js_def)
  have mk: "makeCard sample_platform clock i obj_hund_article
     = Inr ((card_hund (of_int (clock i) + of_nat i))\<lparr> full_form := js ''der Hund'' \<rparr>)"
    by (simp add: makeCard_def obj_hund_article_def js_def cleanText_def replace_id_suffix_def
          isDigit_def or_else_def first_translation_def card_hund_def
          sample_lower_Hund [unfolded js_def, simplified])
  show ?thesis by (simp add: classify_def tr parse valid mk)
qed

lemma classify_apfel:
  "classify sample_platform clock (i, line_apfel) = Decoded (card_apfel (of_int (clock i) + of_nat i))"
proof -
  have tr: "trim line_apfel \<noteq> []"
    by (simp add: line_apfel_def trim_def js_def isWhiteSpace_def)
  have valid: "validateCard obj_apfel"
    by (simp add: validateCard_def obj_apfel_def js_def)
  have mk: "makeCard sample_platform clock i obj_apfel = Inr (card_apfel (of_int (clock i) + of_nat i))"
    by (simp add: makeCard_def obj_apfel_def js_def cleanText_def replace_id_suffix_def
          isDigit_def or_else_def first_translation_def card_apfel_def
          sample_lower_Apfel [unfolded js_def, simplified])
  show ?thesis by (simp add: classify_def tr sample_parse_apfel valid mk)
qed

lemma signature_hund_apfel:
  "signature sample_platform (card_hund n) \<noteq> signature sample_platform (card_apfel m)"
  by (simp add: signature_def signature_object_def sample_platform_def card_hund_def card_apfel_def js_def quote_def)

lemma classify_hund_inf:
  "classify sample_platform clock (i, line_hund_inf)
     = Decoded ((card_hund (of_int (clock i) + of_nat i))\<lparr> gender := JNumber PosInfinity \<rparr>)"
proof -
  have tr: "trim line_hund_inf \<noteq> []"
    by (simp add: line_hund_inf_def trim_def js_def isWhiteSpace_def)
  have parse: "JSON_parse sample_platform line_hund_inf = Some obj_hund_inf"
    by (simp add: sample_platform_def sample_JSON_parse_def sample_lines js_def)
  have valid: "validateCard obj_hund_inf"
    by (simp add: validateCard_def obj_hund_inf_def js_def)
  have mk: "makeCard sample_platform clock i obj_hund_inf
     = Inr ((card_hund (of_int (clock i) + of_nat i))\<lparr> gender := JNumber PosInfinity \<rparr>)"
    by (simp add: makeCard_def obj_hund_inf_def js_def cleanText_def replace_id_suffix_def
          isDigit_def or_else_def first_translation_def card_hund_def
          sample_lower_Hund [unfolded js_def, simplified])
  show ?thesis by (simp add: classify_def tr parse valid mk)
qed

lemma text_lines_inf: "text_lines text_inf = [line_hund_inf, line_hund, line_hund]"
  by (simp add: text_inf_def text_lines_def sample_lines js_def trim_def isWhiteSpace_def)

lemma signature_hund_inf:
  "signature sample_platform ((card_hund n)\<lparr> gender := JNumber PosInfinity \<rparr>)
     = signature sample_platform (card_hund m)"
  by (simp add: signature_def signature_object_def sample_platform_def card_hund_def)

text \<open>
  C5, as the specification states it, fails where \<^verbatim>\<open>JSON.stringify\<close> writes two tuples
  alike.  It writes an infinite number as \<^verbatim>\<open>null\<close>, so after a record whose gender is
  \<^verbatim>\<open>1e999\<close> the two records of the same word without gender, which agree with each other
  on the tuple and differ from the first in gender, are both dropped: the first record of
  their tuple does not survive.
\<close>

theorem C5_counterexample:
  "indexed_records sample_platform (\<lambda>i. 1000) (enumerate 0 (text_lines text_inf))
     = [(0, (card_hund 1000)\<lparr> gender := JNumber PosInfinity \<rparr>), (1, card_hund 1001),
        (2, card_hund 1002)]
   \<and> dedup_tuple (card_hund 1001) = dedup_tuple (card_hund 1002)
   \<and> dedup_tuple ((card_hund 1000)\<lparr> gender := JNumber PosInfinity \<rparr>) \<noteq> dedup_tuple (card_hund 1001)
   \<and> cards (parseJSONL sample_platform (\<lambda>i. 1000) text_inf)
        = [(card_hund 1000)\<lparr> gender := JNumber PosInfinity \<rparr>]"
proof -
  have recs: "indexed_records sample_platform (\<lambda>i. 1000) (enumerate 0 (text_lines text_inf))
     = [(0, (card_hund 1000)\<lparr> gender := JNumber PosInfinity \<rparr>), (1, card_hund 1001),
        (2, card_hund 1002)]"
    by (simp add: text_lines_inf indexed_records_Cons classify_hund classify_hund_inf
          indexed_records_def [of _ _ "[]"] List.map_filter_simps)
  have t1: "dedup_tuple (card_hund 1001) = dedup_tuple (card_hund 1002)"
    by (simp add: dedup_tuple_def card_hund_def)
  have t2: "dedup_tuple ((card_hund 1000)\<lparr> gender := JNumber PosInfinity \<rparr>) \<noteq> dedup_tuple (card_hund 1001)"
    by (simp add: dedup_tuple_def card_hund_def)
  have cs: "cards (parseJSONL sample_platform (\<lambda>i. 1000) text_inf)
        = [(card_hund 1000)\<lparr> gender := JNumber PosInfinity \<rparr>]"
    by (simp add: cards_parseJSONL text_lines_inf ingest_loop_def processLine_classify
          classify_hund classify_hund_inf signature_hund_inf [of 1000 1001, symmetric]
          signature_hund_inf [of 1000 1002, symmetric])
  show ?thesis using recs t1 t2 cs by blast
qed

text \<open>
  C5, amended.  Within one ingestion call the output is, in line order, the list of the
  records whose signature no earlier record has, so of the records of one signature the
  first survives and no other.  Two records that agree on the tuple (language, lemma,
  gender, translations_ko, level, topic), whatever their other fields, have one signature,
  and the later one does not survive.  When \<^verbatim>\<open>JSON.stringify\<close> writes the signature objects
  of the call's records apart, the survivors are exactly the first records of each tuple.
  A dropped duplicate is a record, not an invalid line: the count of invalid lines is that
  of the lines that fail, and every line is a record, invalid or blank.  Adding the cards of
  a second call to the repository drops none of them.
\<close>

theorem C5_first_record_survives:
  assumes "ils = enumerate 0 (text_lines text)"
    and "recs = indexed_records P clock ils"
  shows "cards (parseJSONL P clock text) = map snd (first_by_signature P recs)
     \<and> (\<forall>jd \<in> set recs. \<exists>ic \<in> set (first_by_signature P recs).
           fst ic \<le> fst jd \<and> signature P (snd ic) = signature P (snd jd))
     \<and> (\<forall>ic \<in> set recs. \<forall>jd \<in> set recs.
           fst ic < fst jd \<and> dedup_tuple (snd ic) = dedup_tuple (snd jd)
           \<longrightarrow> signature P (snd ic) = signature P (snd jd)
               \<and> jd \<notin> set (first_by_signature P recs))
     \<and> (inj_on (JSON_stringify P) (signature_object ` snd ` set recs)
          \<longrightarrow> first_by_signature P recs = first_by_tuple recs)
     \<and> snd (snd (ingest_loop P clock (text_lines text))) = length (invalid_lines P clock ils)
     \<and> length recs + length (invalid_lines P clock ils)
          + length (filter (\<lambda>il. trim (snd il) = []) ils) = length (text_lines text)
     \<and> allCards (handleAddFile (handleAddFile loadedFiles f1) f2)
          = allCards loadedFiles @ file_cards f1 @ file_cards f2"
proof -
  have c1: "cards (parseJSONL P clock text) = map snd (first_by_signature P recs)"
    by (simp add: cards_parseJSONL ingest_loop_eq assms)
  have c1': "\<forall>jd \<in> set recs. \<exists>ic \<in> set (first_by_signature P recs).
           fst ic \<le> fst jd \<and> signature P (snd ic) = signature P (snd jd)"
    using first_of_signature_survives by blast
  have c2: "\<forall>ic \<in> set recs. \<forall>jd \<in> set recs.
           fst ic < fst jd \<and> dedup_tuple (snd ic) = dedup_tuple (snd jd)
           \<longrightarrow> signature P (snd ic) = signature P (snd jd)
               \<and> jd \<notin> set (first_by_signature P recs)"
    using later_duplicate_dropped signature_dedup_tuple by blast
  have c3: "inj_on (JSON_stringify P) (signature_object ` snd ` set recs)
          \<longrightarrow> first_by_signature P recs = first_by_tuple recs"
    using first_by_signature_tuple by blast
  have c4: "snd (snd (ingest_loop P clock (text_lines text))) = length (invalid_lines P clock ils)"
    by (simp add: ingest_loop_eq assms)
  have c5: "length recs + length (invalid_lines P clock ils)
          + length (filter (\<lambda>il. trim (snd il) = []) ils) = length (text_lines text)"
    using length_outcomes [of P clock ils] by (simp add: assms)
  have c6: "allCards (handleAddFile (handleAddFile loadedFiles f1) f2)
          = allCards loadedFiles @ file_cards f1 @ file_cards f2"
    by (simp add: allCards_handleAddFile)
  show ?thesis using c1 c1' c2 c3 c4 c5 c6 by blast
qed

theorem C5_first_record_survives_witness:
  "indexed_records sample_platform (\<lambda>i. 1000) (enumerate 0 (text_lines text_dup))
     = [(0, card_hund 1000), (1, (card_hund 1001)\<lparr> full_form := js ''der Hund'' \<rparr>),
        (2, card_apfel 1002)]
   \<and> dedup_tuple (card_hund 1000) = dedup_tuple ((card_hund 1001)\<lparr> full_form := js ''der Hund'' \<rparr>)
   \<and> inj_on (JSON_stringify sample_platform)
        (signature_object ` snd ` set [(0::nat, card_hund 1000),
           (1, (card_hund 1001)\<lparr> full_form := js ''der Hund'' \<rparr>), (2, card_apfel 1002)])
   \<and> first_by_tuple [(0::nat, card_hund 1000),
           (1, (card_hund 1001)\<lparr> full_form := js ''der Hund'' \<rparr>), (2, card_apfel 1002)]
        = [(0, card_hund 1000), (2, card_apfel 1002)]
   \<and> cards (parseJSONL sample_platform (\<lambda>i. 1000) text_dup) = [card_hund 1000, card_apfel 1002]
   \<and> snd (snd (ingest_loop sample_platform (\<lambda>i. 1000) (text_lines text_dup))) = 0"
proof -
  let ?recs = "[(0, card_hund 1000), (1, (card_hund 1001)\<lparr> full_form := js ''der Hund'' \<rparr>),
        (2::nat, card_apfel 1002)]"
  have recs: "indexed_records sample_platform (\<lambda>i. 1000) (enumerate 0 (text_lines text_dup)) = ?recs"
    by (simp add: text_lines_dup indexed_records_Cons classify_hund classify_hund_article
          classify_apfel indexed_records_def [of _ _ "[]"] List.map_filter_simps)
  have tup: "dedup_tuple (card_hund 1000) = dedup_tuple ((card_hund 1001)\<lparr> full_form := js ''der Hund'' \<rparr>)"
    by (simp add: dedup_tuple_def card_hund_def)
  have so: "signature_object ((card_hund 1001)\<lparr> full_form := js ''der Hund'' \<rparr>)
      = signature_object (card_hund 1000)"
    using tup by (simp add: signature_object_tuple)
  have ne: "JSON_stringify sample_platform (signature_object (card_hund 1000))
      \<noteq> JSON_stringify sample_platform (signature_object (card_apfel 1002))"
    using signature_hund_apfel [of 1000 1002] by (simp add: signature_def)
  have one: "signature_object (card_hund 1000) \<noteq> signature_object (card_apfel 1002)"
    using ne by auto
  have inj: "inj_on (JSON_stringify sample_platform) (signature_object ` snd ` set ?recs)"
    using ne one by (simp add: so)
  have tne: "dedup_tuple (card_hund 1000) \<noteq> dedup_tuple (card_apfel 1002)"
    by (simp add: dedup_tuple_def card_hund_def card_apfel_def js_def)
  have ft: "first_by_tuple ?recs = [(0, card_hund 1000), (2, card_apfel 1002)]"
    using tne by (simp add: first_by_tuple_def tup [symmetric])
  note c5 = C5_first_record_survives [OF refl recs [symmetric]]
  have fs: "first_by_signature sample_platform ?recs = first_by_tuple ?recs"
    using c5 inj by blast
  have "cards (parseJSONL sample_platform (\<lambda>i. 1000) text_dup)
      = map snd (first_by_signature sample_platform ?recs)"
    by (rule c5 [THEN conjunct1])
  then have cs: "cards (parseJSONL sample_platform (\<lambda>i. 1000) text_dup) = [card_hund 1000, card_apfel 1002]"
    by (simp only: fs ft) simp
  have inv: "invalid_lines sample_platform (\<lambda>i. 1000) (enumerate 0 (text_lines text_dup)) = []"
    by (simp add: invalid_lines_def text_lines_dup classify_hund classify_hund_article classify_apfel)
  have "snd (snd (ingest_loop sample_platform (\<lambda>i. 1000) (text_lines text_dup)))
      = length (invalid_lines sample_platform (\<lambda>i. 1000) (enumerate 0 (text_lines text_dup)))"
    using c5 by blast
  then have n: "snd (snd (ingest_loop sample_platform (\<lambda>i. 1000) (text_lines text_dup))) = 0"
    by (simp only: inv) simp
  show ?thesis using recs tup inj ft cs n by blast
qed

section \<open>The accepted answers\<close>

lemma replace_id_suffix_Nil: "replace_id_suffix [] = []"
  by (simp add: replace_id_suffix_def)

lemma cleanText_Inr:
  "cleanText v = Inr d \<Longrightarrow> d = (case v of JString s \<Rightarrow> replace_id_suffix s | _ \<Rightarrow> [])"
  by (cases v) (auto simp: cleanText_def replace_id_suffix_Nil split: if_splits)

lemma map_throwing_Inr:
  "map_throwing f xs = Inr ys \<Longrightarrow> list_all2 (\<lambda>x y. f x = Inr y) xs ys"
  by (induction xs arbitrary: ys) (auto split: sum.splits)

lemma lowered_answers:
  assumes "map_throwing (\<lambda>ans. map_sum (\<lambda>e. e) (toLowerCase P) (cleanText ans)) xs = Inr ys"
  shows "ys = map (\<lambda>v. toLowerCase P (case v of JString s \<Rightarrow> replace_id_suffix s | _ \<Rightarrow> [])) xs"
proof -
  have "list_all2 (\<lambda>x y. map_sum (\<lambda>e. e) (toLowerCase P) (cleanText x) = Inr y) xs ys"
    using assms by (rule map_throwing_Inr)
  moreover have "y = toLowerCase P (case x of JString s \<Rightarrow> replace_id_suffix s | _ \<Rightarrow> [])"
    if "map_sum (\<lambda>e. e) (toLowerCase P) (cleanText x) = Inr y" for x y
  proof (cases "cleanText x")
    case (Inl e)
    then show ?thesis using that by simp
  next
    case (Inr d)
    then show ?thesis using that cleanText_Inr [OF Inr] by simp
  qed
  ultimately have "list_all2 (\<lambda>x y. y = toLowerCase P (case x of JString s \<Rightarrow> replace_id_suffix s | _ \<Rightarrow> [])) xs ys"
    by (rule list_all2_mono)
  then show ?thesis
    by (induction xs ys rule: list_all2_induct) simp_all
qed

lemma makeCard_accepted_raw:
  assumes "makeCard P clock i obj = Inr c"
  shows "(case field obj (js ''accepted_answers_de'') of
            Some (JArray answers) \<Rightarrow>
              map_throwing (\<lambda>ans. map_sum (\<lambda>e. e) (toLowerCase P) (cleanText ans)) answers
          | _ \<Rightarrow> Inr [toLowerCase P (lemma_field c)]) = Inr (accepted_answers_de c)"
  using assms
  by (auto simp: makeCard_def split: sum.splits
        cong del: option.case_cong_weak json.case_cong_weak)

lemma makeCard_accepted:
  assumes "makeCard P clock i obj = Inr c"
  shows "accepted_answers_de c =
     (case field obj (js ''accepted_answers_de'') of
        Some (JArray xs) \<Rightarrow>
          map (\<lambda>v. toLowerCase P (case v of JString s \<Rightarrow> replace_id_suffix s | _ \<Rightarrow> [])) xs
      | _ \<Rightarrow> [toLowerCase P (lemma_field c)])"
proof (cases "\<exists>xs. field obj (js ''accepted_answers_de'') = Some (JArray xs)")
  case True
  then obtain xs where xs: "field obj (js ''accepted_answers_de'') = Some (JArray xs)" by blast
  show ?thesis
    using makeCard_accepted_raw [OF assms] lowered_answers [of P xs "accepted_answers_de c"]
    by (simp add: xs)
next
  case False
  have d: "(case field obj (js ''accepted_answers_de'') of
            Some (JArray answers) \<Rightarrow> f answers | _ \<Rightarrow> g) = g" for f and g :: 'x
    using False by (simp split: option.split json.split)
  show ?thesis
    using makeCard_accepted_raw [OF assms] by (simp only: d) simp
qed

lemma indexed_record_made:
  assumes "ic \<in> set (indexed_records P clock ils)"
  shows "\<exists>line obj. (fst ic, line) \<in> set ils \<and> JSON_parse P line = Some obj \<and> validateCard obj
           \<and> makeCard P clock (fst ic) obj = Inr (snd ic)"
  using assms
proof (induction ils)
  case Nil
  then show ?case by (simp add: indexed_records_def List.map_filter_simps)
next
  case (Cons il ils)
  show ?case
  proof (cases "ic \<in> set (indexed_records P clock ils)")
    case True
    then show ?thesis using Cons.IH by auto
  next
    case False
    then have "classify P clock il = Decoded (snd ic) \<and> fst il = fst ic"
      using Cons.prems by (cases "classify P clock il") (auto simp: indexed_records_Cons)
    then show ?thesis
      by (cases il) (auto simp: classify_def split: if_splits option.splits sum.splits)
  qed
qed

lemma makeCard_hund_spaced:
  "makeCard sample_platform clock i obj_hund_spaced
     = Inr ((card_hund (of_int (clock i) + of_nat i))\<lparr> accepted_answers_de := [js '' hund ''] \<rparr>)"
  by (simp add: makeCard_def obj_hund_spaced_def js_def cleanText_def replace_id_suffix_def
        isDigit_def or_else_def first_translation_def card_hund_def sample_platform_def
        sample_toLowerCase_def)

lemma classify_hund_spaced:
  "classify sample_platform clock (i, line_hund_spaced)
     = Decoded ((card_hund (of_int (clock i) + of_nat i))\<lparr> accepted_answers_de := [js '' hund ''] \<rparr>)"
proof -
  have tr: "trim line_hund_spaced \<noteq> []"
    by (simp add: line_hund_spaced_def trim_def js_def isWhiteSpace_def)
  have parse: "JSON_parse sample_platform line_hund_spaced = Some obj_hund_spaced"
    by (simp add: sample_platform_def sample_JSON_parse_def sample_lines js_def)
  have valid: "validateCard obj_hund_spaced"
    by (simp add: validateCard_def obj_hund_spaced_def js_def)
  show ?thesis by (simp add: classify_def tr parse valid makeCard_hund_spaced)
qed

lemma cards_hund_spaced:
  "cards (parseJSONL sample_platform (\<lambda>i. 1000) line_hund_spaced)
     = [(card_hund 1000)\<lparr> accepted_answers_de := [js '' hund ''] \<rparr>]"
proof -
  have lines: "text_lines line_hund_spaced = [line_hund_spaced]"
    by (simp add: text_lines_def line_hund_spaced_def js_def trim_def isWhiteSpace_def)
  show ?thesis
    by (simp add: cards_parseJSONL lines ingest_loop_def processLine_classify classify_hund_spaced)
qed

lemma makeCard_source_lemma:
  assumes "makeCard P clock i obj = Inr c" and "field obj (js ''lemma'') = Some (JString l)"
  shows "lemma_field c = replace_id_suffix l"
proof -
  obtain d where d: "cleanText (the (field obj (js ''lemma''))) = Inr d" and l: "lemma_field c = d"
    using assms(1) by (auto simp: makeCard_def split: sum.splits)
  show ?thesis using cleanText_Inr [OF d] l assms(2) by simp
qed

lemma parseJSONL_card_source:
  assumes "c \<in> set (cards (parseJSONL P clock text))"
  shows "\<exists>i line obj l. (i, line) \<in> set (enumerate 0 (text_lines text))
           \<and> JSON_parse P line = Some obj
           \<and> field obj (js ''lemma'') = Some (JString l)
           \<and> lemma_field c = replace_id_suffix l
           \<and> accepted_answers_de c =
               (case field obj (js ''accepted_answers_de'') of
                  Some (JArray xs) \<Rightarrow>
                    map (\<lambda>v. toLowerCase P (case v of JString s \<Rightarrow> replace_id_suffix s | _ \<Rightarrow> [])) xs
                | _ \<Rightarrow> [toLowerCase P (replace_id_suffix l)])"
proof -
  have "c \<in> snd ` set (indexed_records P clock (enumerate 0 (text_lines text)))"
    using assms by (auto simp: cards_parseJSONL ingest_loop_eq first_by_signature_def)
  then obtain i where "(i, c) \<in> set (indexed_records P clock (enumerate 0 (text_lines text)))"
    by auto
  then obtain line obj where
    il: "(i, line) \<in> set (enumerate 0 (text_lines text))" and
    p: "JSON_parse P line = Some obj" and v: "validateCard obj" and
    m: "makeCard P clock i obj = Inr c"
    using indexed_record_made [of "(i, c)" P clock "enumerate 0 (text_lines text)"] by auto
  obtain l where l: "field obj (js ''lemma'') = Some (JString l)"
    using v by (auto simp: validateCard_def split: option.splits json.splits)
  have lf: "lemma_field c = replace_id_suffix l"
    using m l by (rule makeCard_source_lemma)
  have "accepted_answers_de c =
               (case field obj (js ''accepted_answers_de'') of
                  Some (JArray xs) \<Rightarrow>
                    map (\<lambda>v. toLowerCase P (case v of JString s \<Rightarrow> replace_id_suffix s | _ \<Rightarrow> [])) xs
                | _ \<Rightarrow> [toLowerCase P (replace_id_suffix l)])"
    using makeCard_accepted [OF m] by (simp only: lf)
  with il p l lf show ?thesis by blast
qed

lemma not_digit_underscore: "\<not> isDigit 0x5F"
  by (simp add: isDigit_def)

lemma replace_id_suffix_removes:
  assumes "ds \<noteq> []" and "\<forall>d \<in> set ds. isDigit d"
  shows "replace_id_suffix (s @ 0x5F # ds) = s"
proof -
  have r: "rev (s @ 0x5F # ds) = rev ds @ 0x5F # rev s" by simp
  have digits: "isDigit x" if "x \<in> set (rev ds)" for x
    using that assms(2) by simp
  have "takeWhile isDigit (rev ds @ 0x5F # rev s) = rev ds @ takeWhile isDigit (0x5F # rev s)"
    by (rule takeWhile_append2) (rule digits)
  then have t: "takeWhile isDigit (rev ds @ 0x5F # rev s) = rev ds"
    by (simp only: takeWhile.simps not_digit_underscore if_False append_Nil2)
  have "dropWhile isDigit (rev ds @ 0x5F # rev s) = dropWhile isDigit (0x5F # rev s)"
    by (rule dropWhile_append2) (rule digits)
  then have d: "dropWhile isDigit (rev ds @ 0x5F # rev s) = 0x5F # rev s"
    by (simp only: dropWhile.simps not_digit_underscore if_False)
  show ?thesis
    unfolding replace_id_suffix_def r Let_def t d using assms(1) by simp
qed

lemma replace_id_suffix_keeps:
  assumes "\<forall>pre ds. s = pre @ 0x5F # ds \<longrightarrow> ds = [] \<or> (\<exists>d \<in> set ds. \<not> isDigit d)"
  shows "replace_id_suffix s = s"
proof (rule ccontr)
  assume ne: "replace_id_suffix s \<noteq> s"
  then obtain pre where d: "dropWhile isDigit (rev s) = 0x5F # pre"
    and t: "takeWhile isDigit (rev s) \<noteq> []"
    by (auto simp: replace_id_suffix_def Let_def split: list.splits if_splits)
  have e: "rev s = takeWhile isDigit (rev s) @ 0x5F # pre"
    using takeWhile_dropWhile_id [of isDigit "rev s"] d by simp
  have "rev (rev s) = rev (takeWhile isDigit (rev s) @ 0x5F # pre)"
    using e by (rule arg_cong)
  then have eq: "s = rev pre @ 0x5F # rev (takeWhile isDigit (rev s))"
    by simp
  have n: "rev (takeWhile isDigit (rev s)) \<noteq> []" using t by simp
  have a: "\<forall>x \<in> set (rev (takeWhile isDigit (rev s))). isDigit x"
    by (auto dest: set_takeWhileD)
  have "rev (takeWhile isDigit (rev s)) = []
      \<or> (\<exists>x \<in> set (rev (takeWhile isDigit (rev s))). \<not> isDigit x)"
    by (rule assms [rule_format, OF eq])
  then show False using n a by blast
qed

lemma dropWhile_replace_ws_runs:
  "s = [] \<or> \<not> isWhiteSpace (hd s) \<Longrightarrow>
   dropWhile isWhiteSpace (replace_ws_runs s) = replace_ws_runs s"
  by (cases s) auto

lemma replace_ws_runs_idem: "replace_ws_runs (replace_ws_runs s) = replace_ws_runs s"
proof (induction s rule: replace_ws_runs.induct)
  case 1
  show ?case by simp
next
  case (2 c cs)
  show ?case
  proof (cases "isWhiteSpace c")
    case True
    have sp: "isWhiteSpace 0x20" by (simp add: isWhiteSpace_def)
    have "dropWhile isWhiteSpace (replace_ws_runs (dropWhile isWhiteSpace cs))
            = replace_ws_runs (dropWhile isWhiteSpace cs)"
      using hd_dropWhile [of isWhiteSpace cs] by (intro dropWhile_replace_ws_runs) blast
    then show ?thesis using True sp "2.IH"(1) by simp
  next
    case False
    then show ?thesis using "2.IH"(2) by simp
  qed
qed

lemma normalizeAnswer_single_spaces:
  "normalizeAnswer P typed = a \<Longrightarrow> replace_ws_runs a = a"
  by (auto simp: normalizeAnswer_def replace_ws_runs_idem)

lemma last_dropWhile:
  "dropWhile Q xs \<noteq> [] \<Longrightarrow> last (dropWhile Q xs) = last xs"
  using takeWhile_dropWhile_id [of Q xs] by (metis last_appendR)

lemma trim_ends:
  assumes "trim s \<noteq> []"
  shows "\<not> isWhiteSpace (hd (trim s)) \<and> \<not> isWhiteSpace (last (trim s))"
proof -
  let ?t = "dropWhile isWhiteSpace s"
  let ?u = "dropWhile isWhiteSpace (rev ?t)"
  have tr: "trim s = rev ?u" by (simp add: trim_def)
  have u: "?u \<noteq> []" using assms tr by simp
  then have t: "?t \<noteq> []" by (metis dropWhile.simps(1) rev.simps(1))
  have "\<not> isWhiteSpace (hd ?u)" using u by (rule hd_dropWhile)
  then have l: "\<not> isWhiteSpace (last (trim s))" using u by (simp add: tr last_rev)
  have "last ?u = last (rev ?t)" using u by (rule last_dropWhile)
  also have "\<dots> = hd ?t" using t by (simp add: last_rev)
  finally have "hd (trim s) = hd ?t" using u by (simp add: tr hd_rev)
  moreover have "\<not> isWhiteSpace (hd ?t)" using t by (rule hd_dropWhile)
  ultimately show ?thesis using l by simp
qed

lemma replace_ws_runs_hd:
  "s \<noteq> [] \<Longrightarrow> \<not> isWhiteSpace (hd s) \<Longrightarrow> replace_ws_runs s \<noteq> [] \<and> hd (replace_ws_runs s) = hd s"
  by (cases s) auto

lemma replace_ws_runs_last:
  "s \<noteq> [] \<Longrightarrow> \<not> isWhiteSpace (last s) \<Longrightarrow>
   replace_ws_runs s \<noteq> [] \<and> last (replace_ws_runs s) = last s"
proof (induction s rule: replace_ws_runs.induct)
  case 1
  then show ?case by simp
next
  case (2 c cs)
  show ?case
  proof (cases "isWhiteSpace c")
    case True
    then have cs: "cs \<noteq> []" and lcs: "\<not> isWhiteSpace (last cs)"
      using "2.prems" by (auto split: if_splits)
    have "\<not> (\<forall>x \<in> set cs. isWhiteSpace x)" using cs lcs last_in_set by blast
    then have d: "dropWhile isWhiteSpace cs \<noteq> []" by (simp add: dropWhile_eq_Nil_conv)
    have ld: "last (dropWhile isWhiteSpace cs) = last cs" using d by (rule last_dropWhile)
    have "replace_ws_runs (dropWhile isWhiteSpace cs) \<noteq> []
        \<and> last (replace_ws_runs (dropWhile isWhiteSpace cs)) = last (dropWhile isWhiteSpace cs)"
      using "2.IH"(1) [OF True d] lcs ld by simp
    then show ?thesis using True cs ld by simp
  next
    case False
    show ?thesis
    proof (cases "cs = []")
      case True
      then show ?thesis using False by simp
    next
      case ne: False
      then have "\<not> isWhiteSpace (last cs)" using "2.prems" by simp
      then show ?thesis using "2.IH"(2) [OF False ne] False ne by simp
    qed
  qed
qed

lemma normalizeAnswer_ends:
  assumes "lower_keeps_ends P" and "normalizeAnswer P typed = a" and "a \<noteq> []"
  shows "\<not> isWhiteSpace (hd a) \<and> \<not> isWhiteSpace (last a)"
proof -
  let ?t = "trim typed"
  have a: "a = replace_ws_runs (toLowerCase P ?t)" using assms(2) by (simp add: normalizeAnswer_def)
  have t: "?t \<noteq> []"
  proof
    assume "?t = []"
    then have "a = []" using assms(1) a by (simp add: lower_keeps_ends_def)
    then show False using assms(3) by simp
  qed
  have e: "\<not> isWhiteSpace (hd ?t) \<and> \<not> isWhiteSpace (last ?t)" using t by (rule trim_ends)
  have l: "toLowerCase P ?t \<noteq> []"
      "\<not> isWhiteSpace (hd (toLowerCase P ?t))" "\<not> isWhiteSpace (last (toLowerCase P ?t))"
    using assms(1) t e by (simp_all add: lower_keeps_ends_def)
  show ?thesis
    using replace_ws_runs_hd [OF l(1,2)] replace_ws_runs_last [OF l(1,3)] l by (simp add: a)
qed

lemma isWhiteSpace_unat: "isWhiteSpace w \<Longrightarrow> unat w \<le> 32 \<or> 160 \<le> unat w"
  by (auto simp: isWhiteSpace_def word_le_nat_alt)

lemma lower_unit_ws:
  "isWhiteSpace (if 0x41 \<le> c \<and> c \<le> 0x5A then c + 0x20 else c) = isWhiteSpace c"
proof (cases "0x41 \<le> c \<and> c \<le> 0x5A")
  case False
  then show ?thesis by auto
next
  case True
  then have u: "65 \<le> unat c" "unat c \<le> 90"
    by (simp_all add: word_le_nat_alt)
  then have v: "unat (c + 0x20) = unat c + 32"
    by (simp add: unat_word_ariths)
  have a: "\<not> isWhiteSpace c"
    using isWhiteSpace_unat [of c] u by auto
  have b: "\<not> isWhiteSpace (c + 0x20)"
    using isWhiteSpace_unat [of "c + 0x20"] u v by auto
  show ?thesis using True a b by simp
qed

lemma sample_lower_keeps_ends: "lower_keeps_ends sample_platform"
  unfolding lower_keeps_ends_def sample_platform_def sample_toLowerCase_def
  by (simp add: hd_map last_map lower_unit_ws)

text \<open>
  C3, as the specification states it, fails: ingestion lowers an accepted answer and removes
  its identifier suffix, and leaves its white space as it is.  The answer written with a
  space on each side is stored with them, and the user's input, normalised, is not a member.
\<close>

theorem C3_counterexample:
  "map accepted_answers_de (cards (parseJSONL sample_platform (\<lambda>i. 1000) line_hund_spaced))
     = [[js '' hund '']]
   \<and> normalizeAnswer sample_platform (js '' hund '') \<noteq> js '' hund ''
   \<and> normalizeAnswer sample_platform (js '' Hund '') \<notin> set [js '' hund '']"
  by (simp add: cards_hund_spaced)
     (simp add: normalizeAnswer_def sample_platform_def sample_toLowerCase_def trim_def
        isWhiteSpace_def js_def)

text \<open>
  C3, amended.  The accepted answers of every card produced by ingestion come from the record
  of one of the text's lines: when the record supplies an array, they are its entries, each
  with its identifier suffix removed and then lowercased (an entry that is not a string,
  being falsy, gives the lowercased empty string); otherwise the one answer is the record's
  lemma with its suffix removed, lowercased, and that cleaned lemma is the card's lemma.
  Removing the suffix takes a final underscore with one or more digits off a text and leaves
  any other text as it is.  Ingestion neither trims the answers nor collapses their white
  space.  The quiz compares them with the normalised input, in which every run of white
  space is a single space and which, when lowercasing keeps the ends of a text, neither
  starts nor ends with white space: an answer that is otherwise is matched by no input.
\<close>

theorem C3_answers_lowercased_and_cleaned:
  "(\<forall>c \<in> set (cards (parseJSONL P clock text)).
      \<exists>i line obj l. (i, line) \<in> set (enumerate 0 (text_lines text))
        \<and> JSON_parse P line = Some obj
        \<and> field obj (js ''lemma'') = Some (JString l)
        \<and> lemma_field c = replace_id_suffix l
        \<and> accepted_answers_de c =
            (case field obj (js ''accepted_answers_de'') of
               Some (JArray xs) \<Rightarrow>
                 map (\<lambda>v. toLowerCase P (case v of JString s \<Rightarrow> replace_id_suffix s | _ \<Rightarrow> [])) xs
             | _ \<Rightarrow> [toLowerCase P (replace_id_suffix l)]))
   \<and> (\<forall>s ds. ds \<noteq> [] \<and> (\<forall>d \<in> set ds. isDigit d) \<longrightarrow> replace_id_suffix (s @ 0x5F # ds) = s)
   \<and> (\<forall>s. (\<forall>pre ds. s = pre @ 0x5F # ds \<longrightarrow> ds = [] \<or> (\<exists>d \<in> set ds. \<not> isDigit d))
          \<longrightarrow> replace_id_suffix s = s)
   \<and> (\<forall>typed a. normalizeAnswer P typed = a \<longrightarrow> replace_ws_runs a = a)
   \<and> (lower_keeps_ends P \<longrightarrow>
        (\<forall>typed a. normalizeAnswer P typed = a \<and> a \<noteq> [] \<longrightarrow>
           \<not> isWhiteSpace (hd a) \<and> \<not> isWhiteSpace (last a)))"
proof -
  have a: "\<forall>c \<in> set (cards (parseJSONL P clock text)).
      \<exists>i line obj l. (i, line) \<in> set (enumerate 0 (text_lines text))
        \<and> JSON_parse P line = Some obj
        \<and> field obj (js ''lemma'') = Some (JString l)
        \<and> lemma_field c = replace_id_suffix l
        \<and> accepted_answers_de c =
            (case field obj (js ''accepted_answers_de'') of
               Some (JArray xs) \<Rightarrow>
                 map (\<lambda>v. toLowerCase P (case v of JString s \<Rightarrow> replace_id_suffix s | _ \<Rightarrow> [])) xs
             | _ \<Rightarrow> [toLowerCase P (replace_id_suffix l)])"
    using parseJSONL_card_source by blast
  have b: "\<forall>s ds. ds \<noteq> [] \<and> (\<forall>d \<in> set ds. isDigit d) \<longrightarrow> replace_id_suffix (s @ 0x5F # ds) = s"
    using replace_id_suffix_removes by blast
  have b': "\<forall>s. (\<forall>pre ds. s = pre @ 0x5F # ds \<longrightarrow> ds = [] \<or> (\<exists>d \<in> set ds. \<not> isDigit d))
          \<longrightarrow> replace_id_suffix s = s"
    using replace_id_suffix_keeps by blast
  have c1: "\<forall>typed a. normalizeAnswer P typed = a \<longrightarrow> replace_ws_runs a = a"
    using normalizeAnswer_single_spaces by blast
  have c2: "lower_keeps_ends P \<longrightarrow>
        (\<forall>typed a. normalizeAnswer P typed = a \<and> a \<noteq> [] \<longrightarrow>
           \<not> isWhiteSpace (hd a) \<and> \<not> isWhiteSpace (last a))"
    using normalizeAnswer_ends by blast
  from a b b' c1 c2 show ?thesis by (intro conjI)
qed

theorem C3_answers_lowercased_and_cleaned_witness:
  "cards (parseJSONL sample_platform (\<lambda>i. 1000) line_hund_spaced)
     = [(card_hund 1000)\<lparr> accepted_answers_de := [js '' hund ''] \<rparr>]
   \<and> (\<exists>i line obj l. (i, line) \<in> set (enumerate 0 (text_lines line_hund_spaced))
        \<and> JSON_parse sample_platform line = Some obj
        \<and> field obj (js ''lemma'') = Some (JString l)
        \<and> js ''Hund'' = replace_id_suffix l
        \<and> [js '' hund ''] =
            (case field obj (js ''accepted_answers_de'') of
               Some (JArray xs) \<Rightarrow>
                 map (\<lambda>v. toLowerCase sample_platform
                            (case v of JString s \<Rightarrow> replace_id_suffix s | _ \<Rightarrow> [])) xs
             | _ \<Rightarrow> [toLowerCase sample_platform (replace_id_suffix l)]))
   \<and> replace_id_suffix (js ''fern_198'') = js ''fern''
   \<and> lower_keeps_ends sample_platform
   \<and> isWhiteSpace (hd (js '' hund ''))
   \<and> normalizeAnswer sample_platform (js '' Hund '') \<noteq> js '' hund ''"
proof -
  note c3 = C3_answers_lowercased_and_cleaned [of sample_platform "\<lambda>i. 1000" line_hund_spaced]
  let ?c = "(card_hund 1000)\<lparr> accepted_answers_de := [js '' hund ''] \<rparr>"
  have cs: "cards (parseJSONL sample_platform (\<lambda>i. 1000) line_hund_spaced) = [?c]"
    by (rule cards_hund_spaced)
  have "?c \<in> set (cards (parseJSONL sample_platform (\<lambda>i. 1000) line_hund_spaced))"
    by (simp only: cs) simp
  then have "\<exists>i line obj l. (i, line) \<in> set (enumerate 0 (text_lines line_hund_spaced))
        \<and> JSON_parse sample_platform line = Some obj
        \<and> field obj (js ''lemma'') = Some (JString l)
        \<and> lemma_field ?c = replace_id_suffix l
        \<and> accepted_answers_de ?c =
            (case field obj (js ''accepted_answers_de'') of
               Some (JArray xs) \<Rightarrow>
                 map (\<lambda>v. toLowerCase sample_platform
                            (case v of JString s \<Rightarrow> replace_id_suffix s | _ \<Rightarrow> [])) xs
             | _ \<Rightarrow> [toLowerCase sample_platform (replace_id_suffix l)])"
    using c3 [THEN conjunct1] by blast
  then have src: "\<exists>i line obj l. (i, line) \<in> set (enumerate 0 (text_lines line_hund_spaced))
        \<and> JSON_parse sample_platform line = Some obj
        \<and> field obj (js ''lemma'') = Some (JString l)
        \<and> js ''Hund'' = replace_id_suffix l
        \<and> [js '' hund ''] =
            (case field obj (js ''accepted_answers_de'') of
               Some (JArray xs) \<Rightarrow>
                 map (\<lambda>v. toLowerCase sample_platform
                            (case v of JString s \<Rightarrow> replace_id_suffix s | _ \<Rightarrow> [])) xs
             | _ \<Rightarrow> [toLowerCase sample_platform (replace_id_suffix l)])"
    by (simp add: card_hund_def)
  have digits: "[0x31, 0x39, 0x38] \<noteq> ([] :: jsstring) \<and> (\<forall>d \<in> set [0x31, 0x39, 0x38]. isDigit d)"
    by (simp add: isDigit_def)
  have "replace_id_suffix (js ''fern'' @ 0x5F # [0x31, 0x39, 0x38]) = js ''fern''"
    using c3 digits by blast
  then have fern: "replace_id_suffix (js ''fern_198'') = js ''fern''"
    by (simp add: js_def)
  have keeps: "lower_keeps_ends sample_platform" by (rule sample_lower_keeps_ends)
  have ws: "isWhiteSpace (hd (js '' hund ''))"
    by (simp add: js_def isWhiteSpace_def)
  have ends: "normalizeAnswer sample_platform (js '' Hund '') = js '' hund '' \<and> js '' hund '' \<noteq> []
      \<longrightarrow> \<not> isWhiteSpace (hd (js '' hund '')) \<and> \<not> isWhiteSpace (last (js '' hund ''))"
    using c3 keeps by blast
  have ne: "js '' hund '' \<noteq> []" by (simp add: js_def)
  have nm: "normalizeAnswer sample_platform (js '' Hund '') \<noteq> js '' hund ''"
    using ends ws ne by blast
  show ?thesis using cs src fern keeps ws nm by blast
qed

section \<open>Scoring a submission\<close>

lemma handleSubmit_scores:
  assumes "\<not> isFinished st" and "feedback st = Idle" and "trim (input st) \<noteq> []"
    and "currentIndex st < length (quiz_cards st)"
    and "handleSubmit P (localStorage, st) = (err, localStorage', st')"
  shows "feedback st' =
           (if normalizeAnswer P (input st) \<in> set (accepted_answers_de (quiz_cards st ! currentIndex st))
            then Correct else Incorrect)"
    and "stats_total st' = stats_total st + 1"
    and "stats_correct st' = stats_correct st +
           (if normalizeAnswer P (input st) \<in> set (accepted_answers_de (quiz_cards st ! currentIndex st))
            then 1 else 0)"
    and "currentIndex st' = currentIndex st" and "quiz_cards st' = quiz_cards st"
    and "\<not> isFinished st'"
  using assms
  by (auto simp: handleSubmit_def Let_def split: if_splits sum.splits)

lemma handleSubmit_after_feedback:
  assumes "feedback st \<noteq> Idle \<or> isFinished st"
    and "handleSubmit P (localStorage, st) = (err, localStorage', st')"
  shows "stats_total st' = stats_total st" and "stats_correct st' = stats_correct st"
    and "sessionWrongCards st' = sessionWrongCards st" and "localStorage' = localStorage"
  using assms
  by (auto simp: handleSubmit_def handleNext_def Let_def split: if_splits)

lemma handleNext_inv:
  assumes "quiz_inv s" and "feedback s \<noteq> Idle" and "\<not> isFinished s"
  shows "quiz_inv (handleNext s)"
  using assms by (auto simp: quiz_inv_def handleNext_def Let_def)

lemma handleSubmit_inv:
  assumes "quiz_inv s"
  shows "quiz_inv (snd (snd (handleSubmit P (ls, s))))"
proof (cases "isFinished s")
  case True
  then show ?thesis using assms by (simp add: handleSubmit_def)
next
  case nf: False
  show ?thesis
  proof (cases "feedback s = Idle")
    case False
    then show ?thesis using nf handleNext_inv [OF assms] by (simp add: handleSubmit_def)
  next
    case True
    show ?thesis
    proof (cases "trim (input s) = [] \<or> currentIndex s \<ge> length (quiz_cards s)")
      case True
      then show ?thesis using assms nf \<open>feedback s = Idle\<close> by (auto simp: handleSubmit_def)
    next
      case False
      obtain err ls' s' where h: "handleSubmit P (ls, s) = (err, ls', s')"
        by (cases "handleSubmit P (ls, s)") auto
      have pre: "trim (input s) \<noteq> []" "currentIndex s < length (quiz_cards s)"
        using False by auto
      note sc = handleSubmit_scores [OF nf True pre h]
      have "quiz_inv s'"
        using assms nf True sc pre by (auto simp: quiz_inv_def)
      then show ?thesis by (simp add: h)
    qed
  qed
qed

lemma quiz_step_inv:
  assumes "quiz_inv (snd sst)"
  shows "quiz_inv (snd (quiz_step P sst ev))"
proof (cases ev)
  case Submit
  then show ?thesis using handleSubmit_inv [OF assms, of P "fst sst"] by (simp add: quiz_step_def)
next
  case (Type s)
  then show ?thesis using assms by (auto simp: quiz_step_def quiz_inv_def)
next
  case ClickNext
  then show ?thesis using assms handleNext_inv [of "snd sst"] by (auto simp: quiz_step_def)
qed

lemma quiz_run_inv:
  "quiz_inv (snd sst) \<Longrightarrow> quiz_inv (snd (foldl (quiz_step P) sst evs))"
  by (induction evs arbitrary: sst) (simp_all add: quiz_step_inv)

lemma init_quiz_inv: "quiz_inv (init_quiz cs)"
  by (simp add: quiz_inv_def init_quiz_def)

lemma classify_guten_tag:
  "classify sample_platform clock (i, line_guten_tag)
     = Decoded (card_guten_tag (of_int (clock i) + of_nat i))"
proof -
  have tr: "trim line_guten_tag \<noteq> []"
    by (simp add: line_guten_tag_def trim_def js_def isWhiteSpace_def)
  have parse: "JSON_parse sample_platform line_guten_tag = Some obj_guten_tag"
    by (simp add: sample_platform_def sample_JSON_parse_def sample_lines js_def)
  have valid: "validateCard obj_guten_tag"
    by (simp add: validateCard_def obj_guten_tag_def js_def)
  have mk: "makeCard sample_platform clock i obj_guten_tag
     = Inr (card_guten_tag (of_int (clock i) + of_nat i))"
    by (simp add: makeCard_def obj_guten_tag_def js_def cleanText_def replace_id_suffix_def
          isDigit_def or_else_def first_translation_def card_guten_tag_def sample_platform_def
          sample_toLowerCase_def)
  show ?thesis by (simp add: classify_def tr parse valid mk)
qed

text \<open>
  C6, as the specification states it, fails in its second part: the card of a lemma with two
  spaces between its words has the lowercased lemma, spaces and all, as its one accepted
  answer; the lemma itself, submitted, is normalised to one space and judged incorrect.
\<close>

theorem C6_counterexample:
  "cards (parseJSONL sample_platform (\<lambda>i. 1000) line_guten_tag) = [card_guten_tag 1000]
   \<and> accepted_answers_de (card_guten_tag 1000)
        = [toLowerCase sample_platform (lemma_field (card_guten_tag 1000))]
   \<and> feedback (snd (snd (handleSubmit sample_platform
        (Map.empty, (init_quiz [card_guten_tag 1000])\<lparr> input := lemma_field (card_guten_tag 1000) \<rparr>))))
        = Incorrect"
proof -
  have lines: "text_lines line_guten_tag = [line_guten_tag]"
    by (simp add: text_lines_def line_guten_tag_def js_def trim_def isWhiteSpace_def)
  have c: "cards (parseJSONL sample_platform (\<lambda>i. 1000) line_guten_tag) = [card_guten_tag 1000]"
    by (simp add: cards_parseJSONL lines ingest_loop_def processLine_classify classify_guten_tag)
  have a: "accepted_answers_de (card_guten_tag 1000)
        = [toLowerCase sample_platform (lemma_field (card_guten_tag 1000))]"
    by (simp add: card_guten_tag_def sample_platform_def sample_toLowerCase_def js_def)
  have n: "normalizeAnswer sample_platform (js ''guten  Tag'') = js ''guten tag''"
    by (simp add: normalizeAnswer_def sample_platform_def sample_toLowerCase_def trim_def
          isWhiteSpace_def js_def)
  have t: "trim (js ''guten  Tag'') \<noteq> []"
    by (simp add: trim_def isWhiteSpace_def js_def)
  have ne: "js ''guten tag'' \<noteq> js ''guten  tag''"
    by (simp add: js_def)
  have f: "feedback (snd (snd (handleSubmit sample_platform
        (Map.empty, (init_quiz [card_guten_tag 1000])\<lparr> input := lemma_field (card_guten_tag 1000) \<rparr>))))
        = Incorrect"
    by (simp add: handleSubmit_def Let_def init_quiz_def card_guten_tag_def n t ne
          saveWrongCard_def)
  show ?thesis using c a f by blast
qed

text \<open>
  C6, amended.  A submission made while no feedback is shown, with an input that is not
  blank, is judged correct exactly when the input, trimmed, lowercased and with its runs of
  white space collapsed to single spaces, is a member of the card's accepted answers, and it
  is scored once.  For a card whose accepted answers were defaulted from its lemma, an input
  that is, once trimmed, the lemma up to casing is judged correct provided the lowercased
  lemma holds no white space other than single spaces.  A submission made after
  the feedback is shown scores nothing and saves nothing; and after any sequence of events
  the number of scored answers is the number of questions left behind, plus one while the
  current question has its feedback or the session is finished.
\<close>

theorem C6_submission_scoring:
  assumes "\<not> isFinished st" and "feedback st = Idle" and "trim (input st) \<noteq> []"
    and "currentIndex st < length (quiz_cards st)"
    and "c = quiz_cards st ! currentIndex st"
    and "handleSubmit P (localStorage, st) = (err, localStorage', st')"
  shows "(feedback st' = Correct \<longleftrightarrow> normalizeAnswer P (input st) \<in> set (accepted_answers_de c))
     \<and> (feedback st' = Incorrect \<longleftrightarrow> normalizeAnswer P (input st) \<notin> set (accepted_answers_de c))
     \<and> stats_total st' = stats_total st + 1
     \<and> stats_correct st' = stats_correct st +
          (if normalizeAnswer P (input st) \<in> set (accepted_answers_de c) then 1 else 0)
     \<and> (accepted_answers_de c = [toLowerCase P (lemma_field c)]
          \<and> toLowerCase P (trim (input st)) = toLowerCase P (lemma_field c)
          \<and> replace_ws_runs (toLowerCase P (lemma_field c)) = toLowerCase P (lemma_field c)
          \<longrightarrow> feedback st' = Correct)
     \<and> (\<forall>err2 ls2 st2. handleSubmit P (localStorage', st') = (err2, ls2, st2) \<longrightarrow>
           stats_total st2 = stats_total st' \<and> stats_correct st2 = stats_correct st'
           \<and> sessionWrongCards st2 = sessionWrongCards st' \<and> ls2 = localStorage')
     \<and> (\<forall>ls0 cs evs. quiz_inv (snd (foldl (quiz_step P) (ls0, init_quiz cs) evs)))"
proof -
  note sc = handleSubmit_scores [OF assms(1-4,6), folded assms(5)]
  have judged: "feedback st' = Correct \<longleftrightarrow> normalizeAnswer P (input st) \<in> set (accepted_answers_de c)"
    using sc(1) by simp
  have wrong: "feedback st' = Incorrect \<longleftrightarrow> normalizeAnswer P (input st) \<notin> set (accepted_answers_de c)"
    using sc(1) by simp
  have lem: "feedback st' = Correct"
    if "accepted_answers_de c = [toLowerCase P (lemma_field c)]"
      and "toLowerCase P (trim (input st)) = toLowerCase P (lemma_field c)"
      and "replace_ws_runs (toLowerCase P (lemma_field c)) = toLowerCase P (lemma_field c)"
    using that judged by (simp add: normalizeAnswer_def)
  have shown: "feedback st' \<noteq> Idle \<or> isFinished st'"
    using sc(1) by simp
  have again: "stats_total st2 = stats_total st' \<and> stats_correct st2 = stats_correct st'
           \<and> sessionWrongCards st2 = sessionWrongCards st' \<and> ls2 = localStorage'"
    if "handleSubmit P (localStorage', st') = (err2, ls2, st2)" for err2 ls2 st2
    using handleSubmit_after_feedback [OF shown that] by simp
  have inv: "quiz_inv (snd (foldl (quiz_step P) (ls0, init_quiz cs) evs))" for ls0 cs evs
    by (rule quiz_run_inv) (simp add: init_quiz_inv)
  show ?thesis using judged wrong sc(2,3) lem again inv by blast
qed

theorem C6_submission_scoring_witness:
  "trim (js ''  HUND '') = js ''HUND''
   \<and> accepted_answers_de (card_hund 7) = [toLowerCase sample_platform (lemma_field (card_hund 7))]
   \<and> toLowerCase sample_platform (js ''HUND'') = toLowerCase sample_platform (lemma_field (card_hund 7))
   \<and> replace_ws_runs (js ''hund'') = js ''hund''
   \<and> feedback (snd (snd (handleSubmit sample_platform
        (Map.empty, (init_quiz [card_hund 7])\<lparr> input := js ''  HUND '' \<rparr>)))) = Correct
   \<and> stats_total (snd (snd (handleSubmit sample_platform
        (Map.empty, (init_quiz [card_hund 7])\<lparr> input := js ''  HUND '' \<rparr>)))) = 1"
proof -
  let ?st = "(init_quiz [card_hund 7])\<lparr> input := js ''  HUND '' \<rparr>"
  obtain err ls' st' where h: "handleSubmit sample_platform (Map.empty, ?st) = (err, ls', st')"
    by (cases "handleSubmit sample_platform (Map.empty, ?st)") auto
  have tr: "trim (js ''  HUND '') = js ''HUND''"
    by (simp add: trim_def isWhiteSpace_def js_def)
  have a1: "\<not> isFinished ?st" and a2: "feedback ?st = Idle"
    and a4: "currentIndex ?st < length (quiz_cards ?st)"
    and a5: "card_hund 7 = quiz_cards ?st ! currentIndex ?st"
    by (simp_all add: init_quiz_def)
  have a3: "trim (input ?st) \<noteq> []"
    by (simp add: tr) (simp add: js_def)
  have b1: "accepted_answers_de (card_hund 7) = [toLowerCase sample_platform (lemma_field (card_hund 7))]"
    by (simp add: card_hund_def sample_lower_Hund)
  have b2: "toLowerCase sample_platform (js ''HUND'') = toLowerCase sample_platform (lemma_field (card_hund 7))"
    by (simp add: card_hund_def sample_platform_def sample_toLowerCase_def js_def)
  have low: "toLowerCase sample_platform (lemma_field (card_hund 7)) = js ''hund''"
    by (simp add: card_hund_def sample_lower_Hund)
  have b3: "replace_ws_runs (js ''hund'') = js ''hund''"
    by (simp add: isWhiteSpace_def js_def)
  have b2': "toLowerCase sample_platform (trim (input ?st)) = toLowerCase sample_platform (lemma_field (card_hund 7))"
    using b2 by (simp add: tr)
  have b3': "replace_ws_runs (toLowerCase sample_platform (lemma_field (card_hund 7)))
      = toLowerCase sample_platform (lemma_field (card_hund 7))"
    by (simp only: low b3)
  note c6 = C6_submission_scoring [OF a1 a2 a3 a4 a5 h]
  have "feedback st' = Correct" using c6 b1 b2' b3' by blast
  moreover have "stats_total st' = 1" using c6 by (simp add: init_quiz_def)
  ultimately show ?thesis using tr b1 b2 b3 by (simp add: h)
qed

end
